theory Spec2Isabelle
  imports Main "HOL-Library.Char_ord"
begin

section \<open>The tree and symbol model (parser/ast.go)\<close>

text \<open>
  Go pointers are addresses into explicit stores. A \<^verbatim>\<open>*node\<close> and the
  concrete node that embeds it (\<^verbatim>\<open>ClassNode\<close>, \<^verbatim>\<open>EnumNode\<close>,
  \<^verbatim>\<open>PropertyNode\<close>, through \<^verbatim>\<open>baseNode\<close>) are always allocated together
  by \<^verbatim>\<open>newBaseNode\<close>, and every method of the \<^verbatim>\<open>Node\<close> interface but
  \<^verbatim>\<open>Name\<close> is promoted from the embedded node, so both share one address: a value
  of the interface type \<^verbatim>\<open>Node\<close> is a \<open>node_id\<close>, and \<^verbatim>\<open>nil\<close> is \<open>None\<close>.
  A \<^verbatim>\<open>*Symbol\<close> is a \<open>sym_id\<close>.
\<close>

type_synonym node_id = nat
type_synonym sym_id = nat

record Symbol =
  sym_Value :: string
  sym_Scope :: "node_id option"
  sym_Node :: "node_id option"

text \<open>
  \<^verbatim>\<open>symbolTable\<close> is a Go map from names to symbol pointers. It is kept as an
  association list with one entry per name (\<open>AddSymbol\<close> is the only function that
  inserts, and it refuses a name that is present), read with \<open>map_of\<close>. Go leaves the
  iteration order of a map unspecified; \<open>Symbols\<close> below lists the entries in the
  order of the list, and the results about \<open>ImportSymbols\<close> are proved for every order.
\<close>

type_synonym symbolTable = "(string \<times> sym_id) list"

record node =
  parent :: "node_id option"
  owner :: "node_id option"
  children :: "node_id list"
  symbols :: symbolTable

record ClassNode =
  cls_Value :: string
  cls_Qualifier :: "sym_id option"

record EnumNode =
  enm_Value :: string
  enm_Flags :: bool
  enm_Qualifier :: "sym_id option"

record PropertyNode =
  prp_Value :: string
  prp_Flags :: string
  prp_FlagsOpt :: "sym_id option"
  prp_Type :: "sym_id option"
  prp_Default :: "sym_id list"
  prp_Obsolete :: bool
  prp_ObsoleteReason :: string

datatype concrete = Plain | Class ClassNode | Enum EnumNode | Property PropertyNode

text \<open>
  The store of the \<^verbatim>\<open>node\<close> structs and of the symbols. The fields that a
  \<^verbatim>\<open>ClassNode\<close>, \<^verbatim>\<open>EnumNode\<close> or \<^verbatim>\<open>PropertyNode\<close> adds to its embedded node
  are kept in a store of their own (\<open>node_id \<Rightarrow> concrete\<close>, in the analyzer's state):
  no function of the \<^verbatim>\<open>node\<close> struct reads or writes them.
\<close>

record heap =
  nodes :: "node_id \<Rightarrow> node"
  syms :: "sym_id \<Rightarrow> Symbol"
  next_node :: nat
  next_sym :: nat

text \<open>
  A Go panic carries an error value built with \<^verbatim>\<open>fmt.Errorf\<close>; the model keeps which
  panic it is and the symbol name where the message has one (the \<^verbatim>\<open>NamePath\<close> of the
  message is left out); \<open>NilDereference\<close> is the runtime panic of a method call on a
  nil \<^verbatim>\<open>Node\<close>. Errors returned as values are \<open>Err\<close>.
\<close>

datatype panic = NilSymbol | EmptySymbol | ExistingSymbol string | NilDefault | NilDereference

datatype errmsg = EOF | UnexpectedToken string | InvalidToken string

datatype error =
    AnalyzerError string "(int \<times> int) option" errmsg
  | InvalidUTF8
  | UninitializedAnalyzer
  | FileError string

datatype 'a result = Ok 'a | Err error | Panic panic

definition empty_node :: node where
  "empty_node = \<lparr>parent = None, owner = None, children = [], symbols = []\<rparr>"

definition empty_heap :: heap where
  "empty_heap = \<lparr>nodes = (\<lambda>_. empty_node),
     syms = (\<lambda>_. \<lparr>sym_Value = [], sym_Scope = None, sym_Node = None\<rparr>),
     next_node = 0, next_sym = 0\<rparr>"

text \<open>\<^verbatim>\<open>&Symbol{...}\<close>: a fresh address holding the given fields.\<close>

definition alloc_Symbol :: "Symbol \<Rightarrow> heap \<Rightarrow> sym_id \<times> heap" where
  "alloc_Symbol sy h =
     (next_sym h, h\<lparr>syms := (syms h)(next_sym h := sy), next_sym := Suc (next_sym h)\<rparr>)"

definition SetParent :: "node_id \<Rightarrow> node_id option \<Rightarrow> heap \<Rightarrow> heap" where
  "SetParent n p h = h\<lparr>nodes := (nodes h)(n := (nodes h n)\<lparr>parent := p\<rparr>)\<rparr>"

definition AddChild :: "node_id \<Rightarrow> node_id \<Rightarrow> heap \<Rightarrow> heap" where
  "AddChild n child h =
     (let h1 = SetParent child (Some n) h
      in h1\<lparr>nodes := (nodes h1)(n := (nodes h1 n)\<lparr>children := children (nodes h1 n) @ [child]\<rparr>)\<rparr>)"

definition ClearChildren :: "node_id \<Rightarrow> heap \<Rightarrow> heap" where
  "ClearChildren n h = h\<lparr>nodes := (nodes h)(n := (nodes h n)\<lparr>children := []\<rparr>)\<rparr>"

definition AdoptChildren :: "node_id \<Rightarrow> node_id \<Rightarrow> heap \<Rightarrow> heap" where
  "AdoptChildren n other h =
     ClearChildren other (fold (\<lambda>child. AddChild n child) (children (nodes h other)) h)"

text \<open>
  \<^verbatim>\<open>newNode(parent, owner)\<close>: the fresh node gets the given parent and owner and an
  empty table, and is added to the parent's children when there is a parent.
\<close>

definition newNode :: "node_id option \<Rightarrow> bool \<Rightarrow> heap \<Rightarrow> node_id \<times> heap" where
  "newNode p owned h =
     (let n = next_node h;
          h1 = h\<lparr>nodes := (nodes h)(n := \<lparr>parent = p, owner = (if owned then Some n else None),
                     children = [], symbols = []\<rparr>),
                 next_node := Suc n\<rparr>
      in (n, case p of None \<Rightarrow> h1 | Some pn \<Rightarrow> AddChild pn n h1))"

text \<open>In \<open>newNode p owned\<close>, \<open>owned\<close> says that the node is the embedded node of a
  concrete node being built (\<^verbatim>\<open>newBaseNode(parent, n)\<close>): its owner is then the
  concrete node, which has the address of the node itself.\<close>

definition NewNode :: "node_id option \<Rightarrow> heap \<Rightarrow> node_id \<times> heap" where
  "NewNode p h = newNode p False h"

definition AddSymbol :: "node_id \<Rightarrow> sym_id option \<Rightarrow> heap \<Rightarrow> unit result \<times> heap" where
  "AddSymbol n s h =
     (case s of
        None \<Rightarrow> (Panic NilSymbol, h)
      | Some sp \<Rightarrow>
          if sym_Value (syms h sp) = [] then (Panic EmptySymbol, h)
          else if map_of (symbols (nodes h n)) (sym_Value (syms h sp)) \<noteq> None
          then (Panic (ExistingSymbol (sym_Value (syms h sp))), h)
          else (Ok (),
                h\<lparr>syms := (syms h)(sp := (syms h sp)\<lparr>sym_Scope := Some n\<rparr>),
                  nodes := (nodes h)(n := (nodes h n)
                     \<lparr>symbols := symbols (nodes h n) @ [(sym_Value (syms h sp), sp)]\<rparr>)\<rparr>))"

definition CreateSymbol :: "node_id \<Rightarrow> string \<Rightarrow> node_id option \<Rightarrow> heap \<Rightarrow> sym_id result \<times> heap" where
  "CreateSymbol n v nd h =
     (let (sp, h1) = alloc_Symbol \<lparr>sym_Value = v, sym_Scope = None, sym_Node = nd\<rparr> h
      in case AddSymbol n (Some sp) h1 of
           (Ok _, h2) \<Rightarrow> (Ok sp, h2)
         | (Err e, h2) \<Rightarrow> (Err e, h2)
         | (Panic p, h2) \<Rightarrow> (Panic p, h2))"

text \<open>
  \<^verbatim>\<open>FindSymbol\<close> follows the parent pointers. On a heap whose parent pointers form a
  cycle the Go recursion does not return; here that is the value \<open>None\<close>.
\<close>

partial_function (option) FindSymbol ::
  "node_id \<Rightarrow> string \<Rightarrow> bool \<Rightarrow> heap \<Rightarrow> (sym_id option result \<times> heap) option" where
  "FindSymbol n v create h =
     (case map_of (symbols (nodes h n)) v of
        Some sp \<Rightarrow> Some (Ok (Some sp), h)
      | None \<Rightarrow>
          Option.bind
            (case parent (nodes h n) of
               None \<Rightarrow> Some (Ok None, h)
             | Some p \<Rightarrow> FindSymbol p v create h)
            (\<lambda>(r, h1).
               case r of
                 Ok (Some sp) \<Rightarrow> Some (Ok (Some sp), h1)
               | Ok None \<Rightarrow>
                   if create
                   then (case CreateSymbol n v (owner (nodes h1 n)) h1 of
                           (Ok sp, h2) \<Rightarrow> Some (Ok (Some sp), h2)
                         | (Err e, h2) \<Rightarrow> Some (Err e, h2)
                         | (Panic p, h2) \<Rightarrow> Some (Panic p, h2))
                   else Some (Ok None, h1)
               | Err e \<Rightarrow> Some (Err e, h1)
               | Panic p \<Rightarrow> Some (Panic p, h1)))"


text \<open>
  \<^verbatim>\<open>FindNestedSymbol\<close>: the loop over the path. \<open>cur\<close> is the variable
  \<^verbatim>\<open>node\<close> (nil when the symbol found last has neither a node nor a scope) and
  \<open>found\<close> the variable \<^verbatim>\<open>sym\<close>; \<^verbatim>\<open>i == last\<close> holds on the last component.
\<close>

fun FindNestedSymbol_loop ::
  "node_id option \<Rightarrow> string list \<Rightarrow> sym_id option \<Rightarrow> heap \<Rightarrow> (sym_id option result \<times> heap) option" where
  "FindNestedSymbol_loop cur [] found h = Some (Ok found, h)"
| "FindNestedSymbol_loop cur (v # rest) found h =
     (case cur of
        None \<Rightarrow> Some (Panic NilDereference, h)
      | Some n \<Rightarrow>
          Option.bind (FindSymbol n v (rest = []) h)
            (\<lambda>(r, h1).
               case r of
                 Ok None \<Rightarrow> Some (Ok None, h1)
               | Ok (Some sp) \<Rightarrow>
                   FindNestedSymbol_loop
                     (case sym_Node (syms h1 sp) of Some nd \<Rightarrow> Some nd | None \<Rightarrow> sym_Scope (syms h1 sp))
                     rest (Some sp) h1
               | Err e \<Rightarrow> Some (Err e, h1)
               | Panic p \<Rightarrow> Some (Panic p, h1)))"

definition FindNestedSymbol ::
  "node_id \<Rightarrow> string list \<Rightarrow> heap \<Rightarrow> (sym_id option result \<times> heap) option" where
  "FindNestedSymbol n path h = FindNestedSymbol_loop (Some n) path None h"

definition Symbols :: "node_id \<Rightarrow> heap \<Rightarrow> sym_id list" where
  "Symbols n h = map snd (symbols (nodes h n))"

text \<open>
  \<^verbatim>\<open>ImportSymbols\<close>: each \<^verbatim>\<open>AddSymbol\<close> runs in a closure whose deferred
  \<^verbatim>\<open>recover()\<close> stops a panic, so the loop goes on with the next symbol whatever the
  outcome; \<open>ImportSymbols_loop\<close> is the loop over a given enumeration of the symbols.
\<close>

fun ImportSymbols_loop :: "node_id \<Rightarrow> sym_id list \<Rightarrow> heap \<Rightarrow> heap" where
  "ImportSymbols_loop n [] h = h"
| "ImportSymbols_loop n (sp # rest) h =
     (case AddSymbol n (Some sp) h of
        (Ok _, h1) \<Rightarrow> ImportSymbols_loop n rest h1
      | (Err e, h1) \<Rightarrow> ImportSymbols_loop n rest h1
      | (Panic p, h1) \<Rightarrow> ImportSymbols_loop n rest h1)"

definition ImportSymbols :: "node_id \<Rightarrow> node_id \<Rightarrow> heap \<Rightarrow> heap" where
  "ImportSymbols n other h = ImportSymbols_loop n (Symbols other h) h"

definition ClearSymbols :: "node_id \<Rightarrow> heap \<Rightarrow> heap" where
  "ClearSymbols n h = h\<lparr>nodes := (nodes h)(n := (nodes h n)\<lparr>symbols := []\<rparr>)\<rparr>"

text \<open>
  The ancestors of a node, innermost first, as far as the parent pointers lead:
  \<open>scope_chain h n ms\<close> holds when \<open>ms\<close> lists \<open>n\<close>, its parent, and so on up to a
  node without a parent. A node on a cycle of parent pointers has no such list.
\<close>

inductive scope_chain :: "heap \<Rightarrow> node_id \<Rightarrow> node_id list \<Rightarrow> bool" where
  top: "parent (nodes h n) = None \<Longrightarrow> scope_chain h n [n]"
| up: "parent (nodes h n) = Some p \<Longrightarrow> scope_chain h p ms \<Longrightarrow> scope_chain h n (n # ms)"

text \<open>
  What \<^verbatim>\<open>AddSymbol\<close> keeps true of a table: the key of an entry is the name of its
  symbol, no name is empty, and no name occurs twice (the table is a Go map).
\<close>

definition table_ok :: "heap \<Rightarrow> node_id \<Rightarrow> bool" where
  "table_ok h n =
     (list_all (\<lambda>(k, sp). sym_Value (syms h sp) = k \<and> k \<noteq> []) (symbols (nodes h n))
      \<and> distinct (map fst (symbols (nodes h n))))"


section \<open>Tokens and the lexer (parser/token.go)\<close>

text \<open>A byte is a \<open>char\<close>, a \<^verbatim>\<open>[]byte\<close> and a Go \<^verbatim>\<open>string\<close> are a \<open>string\<close>.\<close>

datatype OpCode =
    OpWhitespace | OpTerminator | OpString | OpComment | OpIdentifier
  | OpNamespace | OpPreprocess | OpOperator | OpInvalid

fun OpCode_String :: "OpCode \<Rightarrow> string" where
  "OpCode_String OpWhitespace = ''whitespace''"
| "OpCode_String OpTerminator = ''terminator''"
| "OpCode_String OpString = ''string''"
| "OpCode_String OpComment = ''comment''"
| "OpCode_String OpIdentifier = ''identifier''"
| "OpCode_String OpNamespace = ''namespace''"
| "OpCode_String OpPreprocess = ''preprocess''"
| "OpCode_String OpOperator = ''operator''"
| "OpCode_String OpInvalid = ''invalid''"

record Token =
  tok_Op :: OpCode
  tok_Name :: string
  tok_Value :: string
  tok_Raw :: string
  tok_Row :: int
  tok_Col :: int
  tok_Error :: "error option"

subsection \<open>The Go library functions the tokens use\<close>

text \<open>
  \<^verbatim>\<open>utf8.DecodeRune\<close> (Go standard library, modelled from its documentation): the
  first rune of the bytes and its width; \<open>(RuneError, 1)\<close> for an encoding that is not
  valid UTF-8 (too short, overlong, a surrogate half, beyond U+10FFFF), \<open>(RuneError, 0)\<close>
  for no bytes.
\<close>

definition RuneError :: nat where
  "RuneError = 0xFFFD"

definition RuneSelf :: nat where
  "RuneSelf = 0x80"

definition cont_byte :: "char \<Rightarrow> bool" where
  "cont_byte c = (0x80 \<le> (of_char c :: nat) \<and> (of_char c :: nat) \<le> 0xBF)"

fun DecodeRune :: "string \<Rightarrow> nat \<times> nat" where
  "DecodeRune [] = (RuneError, 0)"
| "DecodeRune (c0 # cs) =
     (let b0 = (of_char c0 :: nat) in
      if b0 < 0x80 then (b0, 1)
      else if 0xC2 \<le> b0 \<and> b0 \<le> 0xDF then
        (case cs of
           c1 # _ \<Rightarrow>
             if cont_byte c1 then ((b0 mod 32) * 64 + of_char c1 mod 64, 2) else (RuneError, 1)
         | _ \<Rightarrow> (RuneError, 1))
      else if 0xE0 \<le> b0 \<and> b0 \<le> 0xEF then
        (case cs of
           c1 # c2 # _ \<Rightarrow>
             if (if b0 = 0xE0 then 0xA0 else 0x80) \<le> (of_char c1 :: nat)
                \<and> (of_char c1 :: nat) \<le> (if b0 = 0xED then 0x9F else 0xBF)
                \<and> cont_byte c2
             then ((b0 mod 16) * 4096 + (of_char c1 mod 64) * 64 + of_char c2 mod 64, 3)
             else (RuneError, 1)
         | _ \<Rightarrow> (RuneError, 1))
      else if 0xF0 \<le> b0 \<and> b0 \<le> 0xF4 then
        (case cs of
           c1 # c2 # c3 # _ \<Rightarrow>
             if (if b0 = 0xF0 then 0x90 else 0x80) \<le> (of_char c1 :: nat)
                \<and> (of_char c1 :: nat) \<le> (if b0 = 0xF4 then 0x8F else 0xBF)
                \<and> cont_byte c2 \<and> cont_byte c3
             then ((b0 mod 8) * 262144 + (of_char c1 mod 64) * 4096
                   + (of_char c2 mod 64) * 64 + of_char c3 mod 64, 4)
             else (RuneError, 1)
         | _ \<Rightarrow> (RuneError, 1))
      else (RuneError, 1))"

lemma DecodeRune_width: "bs \<noteq> [] \<Longrightarrow> 0 < snd (DecodeRune bs)"
  by (cases bs) (auto simp: Let_def split: list.splits)

text \<open>
  What the analyzer takes from outside the repository. \<open>FoldReaches lo hi\<close> stands for
  the loop of \<^verbatim>\<open>bytes.EqualFold\<close> over \<^verbatim>\<open>unicode.SimpleFold\<close> (the Unicode case
  folding table): starting from the rune \<open>lo\<close>, the folding orbit of \<open>lo\<close> reaches the
  rune \<open>hi\<close>, where \<open>lo < hi\<close> and \<open>hi\<close> is not ASCII. \<open>FilepathDir\<close> and
  \<open>FilepathJoin\<close> are \<^verbatim>\<open>filepath.Dir\<close> and \<^verbatim>\<open>filepath.Join\<close>; \<open>ReadFile\<close> is
  \<^verbatim>\<open>os.Open\<close> followed by \<^verbatim>\<open>ioutil.ReadAll\<close>, \<open>None\<close> when either fails.
\<close>

record env =
  FoldReaches :: "nat \<Rightarrow> nat \<Rightarrow> bool"
  FilepathDir :: "string \<Rightarrow> string"
  FilepathJoin :: "string \<Rightarrow> string \<Rightarrow> string"
  ReadFile :: "string \<Rightarrow> string option"

text \<open>
  \<^verbatim>\<open>bytes.EqualFold\<close> (Go standard library, modelled from its source): the two
  byte strings are read rune by rune; two runes agree when they are equal, when both are
  ASCII and differ only in case, or, beyond ASCII, when the folding orbit of the smaller
  reaches the larger.
\<close>

definition next_rune :: "string \<Rightarrow> nat \<times> string" where
  "next_rune bs =
     (if (of_char (hd bs) :: nat) < RuneSelf then (of_char (hd bs), tl bs)
      else (fst (DecodeRune bs), drop (snd (DecodeRune bs)) bs))"

lemma next_rune_shorter: "bs \<noteq> [] \<Longrightarrow> length (snd (next_rune bs)) < length bs"
  using DecodeRune_width [of bs] by (cases bs) (auto simp: next_rune_def)

function EqualFold :: "env \<Rightarrow> string \<Rightarrow> string \<Rightarrow> bool" where
  "EqualFold E s t =
     (if s = [] \<or> t = [] then length s = length t
      else
        let sr = fst (next_rune s); s' = snd (next_rune s);
            tr = fst (next_rune t); t' = snd (next_rune t)
        in if tr = sr then EqualFold E s' t'
           else
             let lo = min sr tr; hi = max sr tr
             in if hi < RuneSelf
                then (if 0x41 \<le> lo \<and> lo \<le> 0x5A \<and> hi = lo + 0x20 then EqualFold E s' t' else False)
                else (if FoldReaches E lo hi then EqualFold E s' t' else False))"
  by pat_completeness auto
termination
  by (relation "measure (\<lambda>(E, s, t). length s)") (auto simp: next_rune_shorter)

declare EqualFold.simps [simp del]

definition Token_Equal :: "env \<Rightarrow> Token \<Rightarrow> Token \<Rightarrow> bool" where
  "Token_Equal E t other = (tok_Op t = tok_Op other \<and> EqualFold E (tok_Value t) (tok_Value other))"

definition ValueString :: "Token \<Rightarrow> string" where
  "ValueString t = tok_Value t"

definition tokenStringValues :: "Token list \<Rightarrow> string list" where
  "tokenStringValues tokens = map ValueString tokens"

subsection \<open>The pattern\<close>

text \<open>
  The lexer is one regular expression (the constant \<^verbatim>\<open>pattern\<close>), an alternation of
  nine branches with one named group each, run by Go's \<^verbatim>\<open>regexp\<close> package
  (leftmost-first matching: at the leftmost position where a branch matches, the first
  branch that matches wins, a greedy repetition takes as much as it can and the lazy
  \<^verbatim>\<open>.+?\<close> as little as it can). \<open>pattern_at\<close> is the match of the pattern at the
  start of the given bytes: the group of the branch, the length of the match, and the
  offset and length of the group's capture. The character classes of the pattern only tell
  ASCII bytes apart and no byte of a multi-byte rune is ASCII, so matching byte by byte
  gives the spans the package finds rune by rune.

  \<^verbatim>\<open>\s\<close> is \<^verbatim>\<open>[\t\n\f\r ]\<close>; \<^verbatim>\<open>.\<close> is every character but the line feed;
  \<^verbatim>\<open>$\<close> (under the flag \<^verbatim>\<open>m\<close>) holds at the end of the text and before a line
  feed.
\<close>

definition is_space :: "char \<Rightarrow> bool" where
  "is_space c = (c = CHR 0x09 \<or> c = CHR 0x0A \<or> c = CHR 0x0C \<or> c = CHR 0x0D \<or> c = CHR 0x20)"

definition is_letter :: "char \<Rightarrow> bool" where
  "is_letter c = ((0x61 \<le> (of_char c :: nat) \<and> (of_char c :: nat) \<le> 0x7A)
                  \<or> (0x41 \<le> (of_char c :: nat) \<and> (of_char c :: nat) \<le> 0x5A))"

definition is_digit :: "char \<Rightarrow> bool" where
  "is_digit c = (0x30 \<le> (of_char c :: nat) \<and> (of_char c :: nat) \<le> 0x39)"

text \<open>\<^verbatim>\<open>[a-zA-Z_0-9]\<close> and \<^verbatim>\<open>[a-zA-Z0-9_.]\<close>, the two classes of the identifier branch.\<close>

definition ident_first :: "char \<Rightarrow> bool" where
  "ident_first c = (is_letter c \<or> c = CHR ''_'' \<or> is_digit c)"

definition ident_rest :: "char \<Rightarrow> bool" where
  "ident_rest c = (is_letter c \<or> is_digit c \<or> c = CHR ''_'' \<or> c = CHR ''.'')"

text \<open>\<^verbatim>\<open>[{}<>\]=|]\<close>\<close>

definition is_operator :: "char \<Rightarrow> bool" where
  "is_operator c = (c \<in> set ''{}<>]=|'')"

definition not_newline :: "char \<Rightarrow> bool" where
  "not_newline c = (c \<noteq> CHR 0x0A)"

text \<open>\<^verbatim>\<open>(?P<string>.+?)["]\<close> after the opening quote: the length of the capture, which
  is at least one character of the line and ends before the first quote after that.\<close>

definition match_string :: "string \<Rightarrow> nat option" where
  "match_string bs =
     (case bs of
        [] \<Rightarrow> None
      | c # cs \<Rightarrow>
          if \<not> not_newline c then None
          else let line = takeWhile not_newline cs;
                   k = length (takeWhile (\<lambda>x. x \<noteq> CHR 0x22) line)
               in if k < length line then Some (Suc k) else None)"

fun pattern_at :: "string \<Rightarrow> OpCode \<times> nat \<times> nat \<times> nat" where
  "pattern_at [] = (OpInvalid, 0, 0, 0)"
| "pattern_at (c # cs) =
     (if is_space c then
        (let n = Suc (length (takeWhile is_space cs)) in (OpWhitespace, n, 0, n))
      else if c = CHR '';'' then (OpTerminator, 1, 0, 1)
      else if c = CHR 0x22 \<and> match_string cs \<noteq> None then
        (OpString, the (match_string cs) + 2, 1, the (match_string cs))
      else if c = CHR ''/'' \<and> cs \<noteq> [] \<and> hd cs = CHR ''/'' then
        (let k = length (takeWhile not_newline (tl cs)) in (OpComment, k + 2, 2, k))
      else if ident_first c then
        (let n = Suc (length (takeWhile ident_rest cs)) in (OpIdentifier, n, 0, n))
      else if c = CHR ''-'' \<and> cs \<noteq> [] \<and> ident_first (hd cs) then
        (let n = Suc (Suc (length (takeWhile ident_rest (tl cs)))) in (OpIdentifier, n, 0, n))
      else if c = CHR '':'' \<and> cs \<noteq> [] \<and> hd cs = CHR '':'' then (OpNamespace, 2, 0, 2)
      else if c = CHR ''#'' then
        (let k = length (takeWhile is_letter cs) in (OpPreprocess, Suc k, 1, k))
      else if is_operator c then (OpOperator, 1, 0, 1)
      else (let n = Suc (length (takeWhile (\<lambda>x. \<not> is_space x) cs)) in (OpInvalid, n, 0, n)))"

lemma pattern_at_length: "bs \<noteq> [] \<Longrightarrow> 0 < fst (snd (pattern_at bs))"
  by (cases bs) (simp_all add: Let_def)

text \<open>
  \<^verbatim>\<open>FindAllSubmatchIndex(data, -1)\<close>: the successive matches from left to right. A
  whitespace character starts a match of the first branch and any other character a match
  of the last branch at least, so every match starts where the one before ended. A match
  index keeps the bounds of the match, the group that took part and the bounds of its
  capture.
\<close>

record MatchIndex =
  mi_start :: nat
  mi_end :: nat
  mi_group :: OpCode
  mi_cap_start :: nat
  mi_cap_end :: nat

function FindAllSubmatchIndex_from :: "string \<Rightarrow> nat \<Rightarrow> MatchIndex list" where
  "FindAllSubmatchIndex_from data pos =
     (if pos < length data then
        (let m = pattern_at (drop pos data)
         in \<lparr>mi_start = pos, mi_end = pos + fst (snd m), mi_group = fst m,
              mi_cap_start = pos + fst (snd (snd m)),
              mi_cap_end = pos + fst (snd (snd m)) + snd (snd (snd m))\<rparr>
            # FindAllSubmatchIndex_from data (pos + fst (snd m)))
      else [])"
  by pat_completeness auto
termination
proof (relation "measure (\<lambda>(data, pos). length data - pos)")
  show "wf (measure (\<lambda>(data, pos). length data - pos))" by simp
next
  fix data :: string and pos :: nat and m
  assume "pos < length data" and "m = pattern_at (drop pos data)"
  then have "0 < fst (snd m)" by (simp add: pattern_at_length)
  with \<open>pos < length data\<close>
  show "((data, pos + fst (snd m)), (data, pos)) \<in> measure (\<lambda>(data, pos). length data - pos)"
    by simp
qed

declare FindAllSubmatchIndex_from.simps [simp del]

definition FindAllSubmatchIndex :: "string \<Rightarrow> MatchIndex list" where
  "FindAllSubmatchIndex data = FindAllSubmatchIndex_from data 0"

text \<open>\<^verbatim>\<open>data[i:j]\<close>\<close>

definition slice :: "string \<Rightarrow> nat \<Rightarrow> nat \<Rightarrow> string" where
  "slice data i j = take (j - i) (drop i data)"

subsection \<open>Counting rows and columns, and the tokenizer\<close>

function countRunes_from :: "string \<Rightarrow> nat \<Rightarrow> int \<Rightarrow> int \<Rightarrow> error + (int \<times> int)" where
  "countRunes_from data pos rows cols =
     (if pos < length data then
        (let r = fst (DecodeRune (drop pos data)); s = snd (DecodeRune (drop pos data))
         in if r = 0x0A then countRunes_from data (pos + s) (rows + 1) 0
            else if r = RuneError then Inl InvalidUTF8
            else countRunes_from data (pos + s) rows (cols + 1))
      else Inr (rows, cols))"
  by pat_completeness auto
termination
proof (relation "measure (\<lambda>(data, pos, rows, cols). length data - pos)")
  show "wf (measure (\<lambda>(data, pos, rows, cols). length data - pos))" by simp
next
  fix data :: string and pos :: nat and rows cols :: int and r s :: nat
  assume "pos < length data" and s: "s = snd (DecodeRune (drop pos data))"
  then have "0 < s" by (simp add: DecodeRune_width)
  with \<open>pos < length data\<close>
  show "((data, pos + s, rows + 1, 0), (data, pos, rows, cols))
          \<in> measure (\<lambda>(data, pos, rows, cols). length data - pos)"
    by simp
next
  fix data :: string and pos :: nat and rows cols :: int and r s :: nat
  assume "pos < length data" and s: "s = snd (DecodeRune (drop pos data))"
  then have "0 < s" by (simp add: DecodeRune_width)
  with \<open>pos < length data\<close>
  show "((data, pos + s, rows, cols + 1), (data, pos, rows, cols))
          \<in> measure (\<lambda>(data, pos, rows, cols). length data - pos)"
    by simp
qed

declare countRunes_from.simps [simp del]

definition countRunes :: "string \<Rightarrow> error + (int \<times> int)" where
  "countRunes data = countRunes_from data 0 0 0"

text \<open>
  \<^verbatim>\<open>Tokenizer.tokenize\<close>: the loop over the matches. \<open>q\<close> is the queue filled so far,
  \<open>row\<close> and \<open>col\<close> the two counters. The inner loop over the groups of a match finds
  the one group that took part, \<open>mi_group\<close>; its name is a key of
  \<^verbatim>\<open>patternGroupsOpCodes\<close>, whose value is the \<open>OpCode\<close> of that name.
\<close>

fun tokenize_loop :: "string \<Rightarrow> MatchIndex list \<Rightarrow> int \<Rightarrow> int \<Rightarrow> Token list \<Rightarrow> error + Token list" where
  "tokenize_loop data [] row col q = Inr q"
| "tokenize_loop data (m # ms) row col q =
     (let matched = slice data (mi_start m) (mi_end m);
          captured = slice data (mi_cap_start m) (mi_cap_end m);
          op = mi_group m
      in case countRunes matched of
           Inl err \<Rightarrow> Inl err
         | Inr (rows, cols) \<Rightarrow>
             (let row' = row + rows;
                  col' = (if rows > 0 then cols else col + cols)
              in if op = OpComment \<or> op = OpWhitespace
                 then tokenize_loop data ms row' col' q
                 else tokenize_loop data ms row' col'
                        (q @ [\<lparr>tok_Op = op, tok_Name = OpCode_String op, tok_Value = captured,
                                tok_Raw = matched, tok_Row = row', tok_Col = col',
                                tok_Error = None\<rparr>])))"

record Tokenizer =
  tk_data :: string
  tk_pos :: int

definition NewTokenizer :: "string \<Rightarrow> Tokenizer" where
  "NewTokenizer data = \<lparr>tk_data = data, tk_pos = 0\<rparr>"

definition Tokenize :: "Tokenizer \<Rightarrow> error + Token list" where
  "Tokenize t = tokenize_loop (tk_data t) (FindAllSubmatchIndex (tk_data t)) 1 1 []"

section \<open>The analyzer\<close>

subsection \<open>State and sequencing\<close>

record Analyzer =
  an_t :: "Tokenizer option"
  an_tokens :: "Token list"
  an_filename :: string

definition NewAnalyzer :: "Tokenizer option \<Rightarrow> string \<Rightarrow> Analyzer" where
  "NewAnalyzer t f = \<lparr>an_t = t, an_tokens = [], an_filename = f\<rparr>"

text \<open>
  The state a method of the analyzer works on: the analyzer itself (its token queue), the
  store of nodes and symbols, and the store of the concrete nodes. A computation returns
  its outcome together with the state it leaves, also when the outcome is an error or a
  panic; it has no value (\<open>None\<close>) when the Go code does not return.
\<close>

record astate =
  an :: Analyzer
  hp :: heap
  objs :: "node_id \<Rightarrow> concrete"

type_synonym 'a acomp = "astate \<Rightarrow> ('a result \<times> astate) option"

definition areturn :: "'a \<Rightarrow> 'a acomp" where
  "areturn x s = Some (Ok x, s)"

definition afail :: "error \<Rightarrow> 'a acomp" where
  "afail e s = Some (Err e, s)"

definition abind :: "'a acomp \<Rightarrow> ('a \<Rightarrow> 'b acomp) \<Rightarrow> 'b acomp" where
  "abind m f s =
     (case m s of
        None \<Rightarrow> None
      | Some (Ok x, s1) \<Rightarrow> f x s1
      | Some (Err e, s1) \<Rightarrow> Some (Err e, s1)
      | Some (Panic p, s1) \<Rightarrow> Some (Panic p, s1))"

lemma abind_cong [fundef_cong]:
  "m1 = m2 \<Longrightarrow> s1 = s2 \<Longrightarrow> (\<And>x s'. m2 s2 = Some (Ok x, s') \<Longrightarrow> f1 x s' = f2 x s') \<Longrightarrow>
   abind m1 f1 s1 = abind m2 f2 s2"
  by (auto simp: abind_def split: option.splits result.splits)

definition with_tokens :: "(Analyzer \<Rightarrow> 'a result \<times> Analyzer) \<Rightarrow> 'a acomp" where
  "with_tokens f s = (case f (an s) of (r, a1) \<Rightarrow> Some (r, s\<lparr>an := a1\<rparr>))"

definition with_heap :: "(heap \<Rightarrow> ('a result \<times> heap) option) \<Rightarrow> 'a acomp" where
  "with_heap f s = (case f (hp s) of None \<Rightarrow> None | Some (r, h1) \<Rightarrow> Some (r, s\<lparr>hp := h1\<rparr>))"

definition update_obj :: "node_id \<Rightarrow> (concrete \<Rightarrow> concrete) \<Rightarrow> unit acomp" where
  "update_obj n f s = Some (Ok (), s\<lparr>objs := (objs s)(n := f (objs s n))\<rparr>)"

subsection \<open>The token queue and the matching primitives\<close>

definition Peek :: "Token list \<Rightarrow> Token option" where
  "Peek q = (case q of [] \<Rightarrow> None | t # _ \<Rightarrow> Some t)"

definition Dequeue :: "Token list \<Rightarrow> Token option \<times> Token list" where
  "Dequeue q = (case q of [] \<Rightarrow> (None, []) | t # rest \<Rightarrow> (Some t, rest))"

text \<open>A token literal of the analyzer: only \<^verbatim>\<open>Op\<close> and \<^verbatim>\<open>Value\<close> are given.\<close>

definition token_lit :: "OpCode \<Rightarrow> string \<Rightarrow> Token" where
  "token_lit op v = \<lparr>tok_Op = op, tok_Name = [], tok_Value = v, tok_Raw = [], tok_Row = 0,
     tok_Col = 0, tok_Error = None\<rparr>"

definition openQualifierToken :: Token where "openQualifierToken = token_lit OpOperator ''<''"
definition closeQualifierToken :: Token where "closeQualifierToken = token_lit OpOperator ''>''"
definition openScopeToken :: Token where "openScopeToken = token_lit OpOperator ''{''"
definition closeScopeToken :: Token where "closeScopeToken = token_lit OpOperator ''}''"
definition assignmentToken :: Token where "assignmentToken = token_lit OpOperator ''=''"
definition binaryOrToken :: Token where "binaryOrToken = token_lit OpOperator ''|''"
definition obsoleteToken :: Token where "obsoleteToken = token_lit OpIdentifier ''obsolete''"
definition flagsToken :: Token where "flagsToken = token_lit OpIdentifier ''flags''"

text \<open>\<^verbatim>\<open>Errorf\<close>: the message with the position when a row or a column is positive, and
  with the file name (empty when the analyzer has none).\<close>

definition Errorf :: "Analyzer \<Rightarrow> int \<Rightarrow> int \<Rightarrow> errmsg \<Rightarrow> error" where
  "Errorf a row col msg =
     AnalyzerError (an_filename a) (if row > 0 \<or> col > 0 then Some (row, col) else None) msg"

definition expectOp :: "OpCode \<Rightarrow> Analyzer \<Rightarrow> Token result \<times> Analyzer" where
  "expectOp op a =
     (case Peek (an_tokens a) of
        None \<Rightarrow> (Err (Errorf a (- 1) (- 1) EOF), a)
      | Some t \<Rightarrow>
          if tok_Op t \<noteq> op
          then (Err (Errorf a (tok_Row t) (tok_Col t) (UnexpectedToken (tok_Raw t))), a)
          else (Ok t, a\<lparr>an_tokens := snd (Dequeue (an_tokens a))\<rparr>))"

definition expectToken :: "env \<Rightarrow> Token \<Rightarrow> Analyzer \<Rightarrow> Token result \<times> Analyzer" where
  "expectToken E t1 a =
     (case Peek (an_tokens a) of
        None \<Rightarrow> (Err (Errorf a (- 1) (- 1) EOF), a)
      | Some t2 \<Rightarrow>
          if \<not> Token_Equal E t1 t2
          then (Err (Errorf a (tok_Row t2) (tok_Col t2) (UnexpectedToken (tok_Raw t2))), a)
          else (Ok t2, a\<lparr>an_tokens := snd (Dequeue (an_tokens a))\<rparr>))"

definition optionalOp :: "OpCode \<Rightarrow> Analyzer \<Rightarrow> Token option result \<times> Analyzer" where
  "optionalOp op a =
     (case Peek (an_tokens a) of
        None \<Rightarrow> (Ok None, a)
      | Some t \<Rightarrow>
          if tok_Op t \<noteq> op then (Ok None, a)
          else (Ok (Some t), a\<lparr>an_tokens := snd (Dequeue (an_tokens a))\<rparr>))"

definition optionalToken :: "env \<Rightarrow> Token \<Rightarrow> Analyzer \<Rightarrow> Token option result \<times> Analyzer" where
  "optionalToken E t1 a =
     (case Peek (an_tokens a) of
        None \<Rightarrow> (Ok None, a)
      | Some t2 \<Rightarrow>
          if \<not> Token_Equal E t1 t2 then (Ok None, a)
          else (Ok (Some t2), a\<lparr>an_tokens := snd (Dequeue (an_tokens a))\<rparr>))"

definition tbind ::
  "'a result \<times> Analyzer \<Rightarrow> ('a \<Rightarrow> Analyzer \<Rightarrow> 'b result \<times> Analyzer) \<Rightarrow> 'b result \<times> Analyzer" where
  "tbind m f =
     (case m of
        (Ok x, a1) \<Rightarrow> f x a1
      | (Err e, a1) \<Rightarrow> (Err e, a1)
      | (Panic p, a1) \<Rightarrow> (Panic p, a1))"

definition getNamespacedIdentifier :: "Analyzer \<Rightarrow> Token list result \<times> Analyzer" where
  "getNamespacedIdentifier a =
     tbind (expectOp OpIdentifier a) (\<lambda>id1 a1.
     tbind (optionalOp OpNamespace a1) (\<lambda>ns a2.
       case ns of
         None \<Rightarrow> (Ok [id1], a2)
       | Some _ \<Rightarrow> tbind (expectOp OpIdentifier a2) (\<lambda>id2 a3. (Ok [id1, id2], a3))))"

definition getQualifierIdentifier :: "env \<Rightarrow> Analyzer \<Rightarrow> Token list result \<times> Analyzer" where
  "getQualifierIdentifier E a =
     tbind (optionalToken E openQualifierToken a) (\<lambda>openQualifier a1.
       case openQualifier of
         None \<Rightarrow> (Ok [], a1)
       | Some _ \<Rightarrow>
           tbind (getNamespacedIdentifier a1) (\<lambda>qualifiers a2.
           tbind (expectToken E closeQualifierToken a2) (\<lambda>_ a3. (Ok qualifiers, a3))))"

subsection \<open>The concrete nodes\<close>

definition NewClassNode :: "node_id option \<Rightarrow> node_id acomp" where
  "NewClassNode p s =
     (case newNode p True (hp s) of
        (n, h1) \<Rightarrow> Some (Ok n, s\<lparr>hp := h1,
           objs := (objs s)(n := Class \<lparr>cls_Value = [], cls_Qualifier = None\<rparr>)\<rparr>))"

definition NewEnumNode :: "node_id option \<Rightarrow> node_id acomp" where
  "NewEnumNode p s =
     (case newNode p True (hp s) of
        (n, h1) \<Rightarrow> Some (Ok n, s\<lparr>hp := h1,
           objs := (objs s)(n := Enum \<lparr>enm_Value = [], enm_Flags = False, enm_Qualifier = None\<rparr>)\<rparr>))"

definition NewPropertyNode :: "node_id option \<Rightarrow> node_id acomp" where
  "NewPropertyNode p s =
     (case newNode p True (hp s) of
        (n, h1) \<Rightarrow> Some (Ok n, s\<lparr>hp := h1,
           objs := (objs s)(n := Property \<lparr>prp_Value = [], prp_Flags = [], prp_FlagsOpt = None,
              prp_Type = None, prp_Default = [], prp_Obsolete = False,
              prp_ObsoleteReason = []\<rparr>)\<rparr>))"

fun concrete_Value :: "concrete \<Rightarrow> string" where
  "concrete_Value Plain = []"
| "concrete_Value (Class c) = cls_Value c"
| "concrete_Value (Enum e) = enm_Value e"
| "concrete_Value (Property p) = prp_Value p"

fun set_Value :: "string \<Rightarrow> concrete \<Rightarrow> concrete" where
  "set_Value v Plain = Plain"
| "set_Value v (Class c) = Class (c\<lparr>cls_Value := v\<rparr>)"
| "set_Value v (Enum e) = Enum (e\<lparr>enm_Value := v\<rparr>)"
| "set_Value v (Property p) = Property (p\<lparr>prp_Value := v\<rparr>)"

fun set_Qualifier :: "sym_id option \<Rightarrow> concrete \<Rightarrow> concrete" where
  "set_Qualifier q (Class c) = Class (c\<lparr>cls_Qualifier := q\<rparr>)"
| "set_Qualifier q (Enum e) = Enum (e\<lparr>enm_Qualifier := q\<rparr>)"
| "set_Qualifier q c = c"

fun set_enum_Flags :: "bool \<Rightarrow> concrete \<Rightarrow> concrete" where
  "set_enum_Flags b (Enum e) = Enum (e\<lparr>enm_Flags := b\<rparr>)"
| "set_enum_Flags b c = c"

fun on_Property :: "(PropertyNode \<Rightarrow> PropertyNode) \<Rightarrow> concrete \<Rightarrow> concrete" where
  "on_Property f (Property p) = Property (f p)"
| "on_Property f c = c"

fun the_Property :: "concrete \<Rightarrow> PropertyNode option" where
  "the_Property (Property p) = Some p"
| "the_Property c = None"

text \<open>\<^verbatim>\<open>baseNode.Symbol()\<close>: a fresh symbol named after the node, whose node is the
  owner of the base node (the concrete node itself).\<close>

definition baseNode_Symbol :: "node_id \<Rightarrow> sym_id acomp" where
  "baseNode_Symbol n s =
     (case alloc_Symbol \<lparr>sym_Value = concrete_Value (objs s n), sym_Scope = None,
                         sym_Node = owner (nodes (hp s) n)\<rparr> (hp s) of
        (sp, h1) \<Rightarrow> Some (Ok sp, s\<lparr>hp := h1\<rparr>))"

definition AddDefault :: "node_id \<Rightarrow> sym_id option \<Rightarrow> unit acomp" where
  "AddDefault n sp s =
     (case sp of
        None \<Rightarrow> Some (Panic NilDefault, s)
      | Some x \<Rightarrow>
          update_obj n (on_Property (\<lambda>p. p\<lparr>prp_Default := prp_Default p @ [x]\<rparr>)) s)"

subsection \<open>The token queue never grows\<close>

text \<open>The loops of the analyzer end because each round takes a token from the queue and
  nothing puts one back; the lemmas below are what their termination proofs use.\<close>

definition ntok :: "astate \<Rightarrow> nat" where
  "ntok s = length (an_tokens (an s))"

definition tok_le :: "'a acomp \<Rightarrow> bool" where
  "tok_le m = (\<forall>s r s'. m s = Some (r, s') \<longrightarrow> ntok s' \<le> ntok s)"

definition tok_lt :: "'a acomp \<Rightarrow> bool" where
  "tok_lt m = (\<forall>s x s'. m s = Some (Ok x, s') \<longrightarrow> ntok s' < ntok s)"

lemma tok_leD: "tok_le m \<Longrightarrow> m s = Some (r, s') \<Longrightarrow> ntok s' \<le> ntok s"
  by (auto simp: tok_le_def)

lemma tok_ltD: "tok_lt m \<Longrightarrow> m s = Some (Ok x, s') \<Longrightarrow> ntok s' < ntok s"
  by (auto simp: tok_lt_def)

lemma tok_le_abind: "tok_le m \<Longrightarrow> (\<And>x. tok_le (f x)) \<Longrightarrow> tok_le (abind m f)"
  unfolding tok_le_def abind_def
  by (fastforce split: option.splits result.splits)

lemma tok_lt_abind1: "tok_lt m \<Longrightarrow> (\<And>x. tok_le (f x)) \<Longrightarrow> tok_lt (abind m f)"
  unfolding tok_le_def tok_lt_def abind_def
  by (fastforce split: option.splits result.splits)

lemma tok_le_areturn: "tok_le (areturn x)" by (simp add: tok_le_def areturn_def)
lemma tok_le_afail: "tok_le (afail e)" by (simp add: tok_le_def afail_def)
lemma tok_le_with_heap: "tok_le (with_heap f)"
  by (auto simp: tok_le_def with_heap_def ntok_def split: option.splits)
lemma tok_le_update_obj: "tok_le (update_obj n f)"
  by (auto simp: tok_le_def update_obj_def ntok_def)

definition shrinks :: "(Analyzer \<Rightarrow> 'a result \<times> Analyzer) \<Rightarrow> bool" where
  "shrinks f = (\<forall>a. length (an_tokens (snd (f a))) \<le> length (an_tokens a))"

definition consumes :: "(Analyzer \<Rightarrow> 'a result \<times> Analyzer) \<Rightarrow> bool" where
  "consumes f = (\<forall>a x a'. f a = (Ok x, a') \<longrightarrow> length (an_tokens a') < length (an_tokens a))"

lemma shrinks_expectOp: "shrinks (expectOp op)"
  by (auto simp: shrinks_def expectOp_def Peek_def Dequeue_def split: list.splits)
lemma consumes_expectOp: "consumes (expectOp op)"
  by (auto simp: consumes_def expectOp_def Peek_def Dequeue_def split: list.splits if_splits)
lemma shrinks_expectToken: "shrinks (expectToken E t)"
  by (auto simp: shrinks_def expectToken_def Peek_def Dequeue_def split: list.splits)
lemma shrinks_optionalOp: "shrinks (optionalOp op)"
  by (auto simp: shrinks_def optionalOp_def Peek_def Dequeue_def split: list.splits)
lemma shrinks_optionalToken: "shrinks (optionalToken E t)"
  by (auto simp: shrinks_def optionalToken_def Peek_def Dequeue_def split: list.splits)

lemmas token_prim_defs = expectOp_def expectToken_def optionalOp_def optionalToken_def
  Peek_def Dequeue_def tbind_def

lemma shrinks_getNamespacedIdentifier: "shrinks getNamespacedIdentifier"
  by (auto simp: shrinks_def getNamespacedIdentifier_def token_prim_defs
      split: list.splits option.splits)

lemma consumes_getNamespacedIdentifier: "consumes getNamespacedIdentifier"
  by (auto simp: consumes_def getNamespacedIdentifier_def token_prim_defs
      split: list.splits option.splits if_splits)

lemma shrinks_getQualifierIdentifier: "shrinks (getQualifierIdentifier E)"
  by (auto simp: shrinks_def getQualifierIdentifier_def getNamespacedIdentifier_def token_prim_defs
      split: list.splits option.splits)

lemma tok_le_with_tokens: "shrinks f \<Longrightarrow> tok_le (with_tokens f)"
  by (auto simp: tok_le_def with_tokens_def shrinks_def ntok_def split: prod.splits) (metis snd_conv)

lemma tok_lt_with_tokens: "consumes f \<Longrightarrow> tok_lt (with_tokens f)"
  by (auto simp: tok_lt_def with_tokens_def consumes_def ntok_def split: prod.splits)

subsection \<open>The grammar\<close>

text \<open>The loop of \<^verbatim>\<open>analyzeProperty\<close> over the default chain
  \<^verbatim>\<open>= X (| Y)*\<close>, entered after the assignment token.\<close>

function analyzeDefaults :: "env \<Rightarrow> node_id \<Rightarrow> unit acomp" where
  "analyzeDefaults E node s =
     abind (with_tokens getNamespacedIdentifier) (\<lambda>tokens.
     abind (with_heap (FindNestedSymbol node (tokenStringValues tokens))) (\<lambda>sp.
     abind (AddDefault node sp) (\<lambda>_.
     abind (with_tokens (optionalToken E binaryOrToken)) (\<lambda>t s'.
       case t of
         Some _ \<Rightarrow> analyzeDefaults E node s'
       | None \<Rightarrow> areturn () s')))) s"
  by pat_completeness auto
termination
proof (relation "measure (\<lambda>(E, node, s). ntok s)")
  show "wf (measure (\<lambda>(E, node, s). ntok s))" by simp
next
  fix E :: env and node :: node_id and s s1 s2 s3 s4 :: astate
    and tokens sp u t x
  assume 1: "with_tokens getNamespacedIdentifier s = Some (Ok tokens, s1)"
    and 2: "with_heap (FindNestedSymbol node (tokenStringValues tokens)) s1 = Some (Ok sp, s2)"
    and 3: "AddDefault node sp s2 = Some (Ok u, s3)"
    and 4: "with_tokens (optionalToken E binaryOrToken) s3 = Some (Ok t, s4)"
  have "ntok s1 < ntok s"
    using tok_ltD [OF tok_lt_with_tokens [OF consumes_getNamespacedIdentifier] 1] .
  moreover have "ntok s2 \<le> ntok s1" using tok_leD [OF tok_le_with_heap 2] .
  moreover have "ntok s3 \<le> ntok s2"
    using 3 by (auto simp: AddDefault_def update_obj_def ntok_def split: option.splits)
  moreover have "ntok s4 \<le> ntok s3"
    using tok_leD [OF tok_le_with_tokens [OF shrinks_optionalToken] 4] .
  ultimately show "((E, node, s4), (E, node, s)) \<in> measure (\<lambda>(E, node, s). ntok s)"
    by simp
qed


declare analyzeDefaults.simps [simp del]

lemma tok_le_AddDefault: "tok_le (AddDefault n sp)"
  by (auto simp: tok_le_def AddDefault_def update_obj_def ntok_def split: option.splits)

definition tok_le_at :: "'a acomp \<Rightarrow> astate \<Rightarrow> bool" where
  "tok_le_at m s = (\<forall>r s'. m s = Some (r, s') \<longrightarrow> ntok s' \<le> ntok s)"

lemma tok_le_atI: "tok_le m \<Longrightarrow> tok_le_at m s"
  by (auto simp: tok_le_def tok_le_at_def)

lemma tok_le_at_abind:
  "tok_le_at m s \<Longrightarrow> (\<And>x s1. m s = Some (Ok x, s1) \<Longrightarrow> tok_le_at (f x) s1) \<Longrightarrow>
   tok_le_at (abind m f) s"
  unfolding tok_le_at_def abind_def
  by (fastforce split: option.splits result.splits)

lemma analyzeDefaults_unfold:
  "analyzeDefaults E node =
     abind (with_tokens getNamespacedIdentifier) (\<lambda>tokens.
     abind (with_heap (FindNestedSymbol node (tokenStringValues tokens))) (\<lambda>sp.
     abind (AddDefault node sp) (\<lambda>_.
     abind (with_tokens (optionalToken E binaryOrToken)) (\<lambda>t s'.
       case t of
         Some _ \<Rightarrow> analyzeDefaults E node s'
       | None \<Rightarrow> areturn () s'))))"
  by (rule ext) (rule analyzeDefaults.simps)

lemma tok_le_at_areturn: "tok_le_at (areturn x) s"
  by (simp add: tok_le_at_def areturn_def)


lemma tok_le_analyzeDefaults: "tok_le (analyzeDefaults E node)"
proof -
  have "tok_le_at (analyzeDefaults E node) s" for s
  proof (induction E node s rule: analyzeDefaults.induct)
    case (1 E node s)
    show ?case
      apply (subst analyzeDefaults_unfold)
      apply (rule tok_le_at_abind, rule tok_le_atI [OF tok_le_with_tokens [OF shrinks_getNamespacedIdentifier]])
      apply (rule tok_le_at_abind, rule tok_le_atI [OF tok_le_with_heap])
      apply (rule tok_le_at_abind, rule tok_le_atI [OF tok_le_AddDefault])
      apply (rule tok_le_at_abind, rule tok_le_atI [OF tok_le_with_tokens [OF shrinks_optionalToken]])
      subgoal premises a for tokens s1 sp s2 u s3 t s4
      proof (cases t)
        case None
        then show ?thesis by (simp add: tok_le_at_def areturn_def)
      next
        case (Some tk)
        from "1.IH" [OF a(1) a(2) a(3) a(4) Some] have "tok_le_at (analyzeDefaults E node) s4" .
        with Some show ?thesis by (simp add: tok_le_at_def)
      qed
      done
  qed
  then show ?thesis by (auto simp: tok_le_def tok_le_at_def)
qed


text \<open>The three identifiers that may start a property: with three, they are the flags
  word, the type and the name; with two, the type and the name; with one, the name.
  (\<^verbatim>\<open>t3\<close> is only read after \<^verbatim>\<open>t2\<close>, so the third case of the first equation
  cannot arise.)\<close>

definition property_names ::
  "Token \<Rightarrow> Token option \<Rightarrow> Token option \<Rightarrow> (string \<times> string \<times> string) acomp" where
  "property_names t1 t2 t3 s =
     (case t3 of
        Some x3 \<Rightarrow>
          (case t2 of
             Some x2 \<Rightarrow> Some (Ok (tok_Value x3, ValueString x2, ValueString t1), s)
           | None \<Rightarrow> Some (Panic NilDereference, s))
      | None \<Rightarrow>
          (case t2 of
             Some x2 \<Rightarrow> Some (Ok (tok_Value x2, ValueString t1, []), s)
           | None \<Rightarrow> Some (Ok (tok_Value t1, [], []), s)))"

text \<open>
  \<^verbatim>\<open>analyzeProperty\<close>, in two parts. \<open>analyzeProperty_declare\<close> is the function
  up to \<^verbatim>\<open>node.Flags = flags\<close>: it makes the property node, reads the identifiers
  and the qualifier, and declares the property in the enclosing scope \<open>root\<close>; its value
  is the new node. \<open>analyzeProperty\<close> goes on with the assignment, the terminator and
  the obsolete marker.
\<close>

definition analyzeProperty_declare :: "env \<Rightarrow> node_id \<Rightarrow> node_id acomp" where
  "analyzeProperty_declare E root =
     abind (NewPropertyNode (Some root)) (\<lambda>node.
     abind (with_tokens (expectOp OpIdentifier)) (\<lambda>t1.
     abind (with_tokens (getQualifierIdentifier E)) (\<lambda>qualifiers.
     abind (with_tokens (optionalOp OpIdentifier)) (\<lambda>t2.
     abind (with_tokens (optionalOp OpIdentifier)) (\<lambda>t3.
     abind (property_names t1 t2 t3) (\<lambda>names.
     abind (update_obj node (set_Value (fst names))) (\<lambda>_.
     abind (with_heap (FindNestedSymbol root (tokenStringValues qualifiers))) (\<lambda>flagsOpt.
     abind (update_obj node (on_Property (\<lambda>p. p\<lparr>prp_FlagsOpt := flagsOpt\<rparr>))) (\<lambda>_.
     abind (baseNode_Symbol node) (\<lambda>sp.
     abind (with_heap (\<lambda>h. Some (AddSymbol root (Some sp) h))) (\<lambda>_.
     abind (if fst (snd names) \<noteq> []
            then abind (with_heap (FindSymbol root (fst (snd names)) True)) (\<lambda>ty.
                   update_obj node (on_Property (\<lambda>p. p\<lparr>prp_Type := ty\<rparr>)))
            else areturn ()) (\<lambda>_.
     abind (update_obj node (on_Property (\<lambda>p. p\<lparr>prp_Flags := snd (snd names)\<rparr>))) (\<lambda>_.
       areturn node)))))))))))))"

definition analyzeProperty :: "env \<Rightarrow> node_id \<Rightarrow> unit acomp" where
  "analyzeProperty E root =
     abind (analyzeProperty_declare E root) (\<lambda>node.
     abind (with_tokens (optionalToken E assignmentToken)) (\<lambda>assignment.
     abind (case assignment of
              Some _ \<Rightarrow> analyzeDefaults E node
            | None \<Rightarrow> areturn ()) (\<lambda>_.
     abind (with_tokens (expectOp OpTerminator)) (\<lambda>_.
     abind (with_tokens (optionalToken E obsoleteToken)) (\<lambda>obsolete.
       case obsolete of
         None \<Rightarrow> areturn ()
       | Some _ \<Rightarrow>
           abind (update_obj node (on_Property (\<lambda>p. p\<lparr>prp_Obsolete := True\<rparr>))) (\<lambda>_.
           abind (with_tokens (optionalOp OpString)) (\<lambda>obsoleteReason.
             case obsoleteReason of
               Some r \<Rightarrow>
                 update_obj node (on_Property (\<lambda>p. p\<lparr>prp_ObsoleteReason := ValueString r\<rparr>))
             | None \<Rightarrow>
                 abind (with_tokens (optionalOp OpTerminator)) (\<lambda>_. areturn ())))
     )))))"

lemma tok_le_case_option:
  "tok_le a \<Longrightarrow> (\<And>y. tok_le (b y)) \<Longrightarrow> tok_le (case x of None \<Rightarrow> a | Some y \<Rightarrow> b y)"
  by (cases x) auto

lemma tok_le_if: "tok_le a \<Longrightarrow> tok_le b \<Longrightarrow> tok_le (if c then a else b)"
  by simp

lemma tok_lt_abind2: "tok_le m \<Longrightarrow> (\<And>x. tok_lt (f x)) \<Longrightarrow> tok_lt (abind m f)"
  unfolding tok_le_def tok_lt_def abind_def
  by (fastforce split: option.splits result.splits)

lemma tok_le_NewNodes:
  "tok_le (NewPropertyNode p)" "tok_le (NewClassNode p)" "tok_le (NewEnumNode p)"
  by (auto simp: tok_le_def NewPropertyNode_def NewClassNode_def NewEnumNode_def ntok_def
      split: prod.splits)

lemma tok_le_property_names: "tok_le (property_names t1 t2 t3)"
  by (auto simp: tok_le_def property_names_def split: option.splits)

lemma tok_le_baseNode_Symbol: "tok_le (baseNode_Symbol n)"
  by (auto simp: tok_le_def baseNode_Symbol_def ntok_def split: prod.splits)

lemmas tok_le_intros = tok_le_abind tok_le_areturn tok_le_afail tok_le_with_heap tok_le_update_obj
  tok_le_case_option tok_le_if tok_le_NewNodes tok_le_property_names tok_le_baseNode_Symbol
  tok_le_AddDefault tok_le_analyzeDefaults
  tok_le_with_tokens [OF shrinks_expectOp] tok_le_with_tokens [OF shrinks_expectToken]
  tok_le_with_tokens [OF shrinks_optionalOp] tok_le_with_tokens [OF shrinks_optionalToken]
  tok_le_with_tokens [OF shrinks_getNamespacedIdentifier]
  tok_le_with_tokens [OF shrinks_getQualifierIdentifier]

lemma tok_lt_analyzeProperty_declare: "tok_lt (analyzeProperty_declare E root)"
  unfolding analyzeProperty_declare_def
  apply (rule tok_lt_abind2, rule tok_le_NewNodes)
  apply (rule tok_lt_abind1, rule tok_lt_with_tokens [OF consumes_expectOp])
  apply (intro tok_le_intros)
  done

lemma tok_lt_analyzeProperty: "tok_lt (analyzeProperty E root)"
  unfolding analyzeProperty_def
  by (rule tok_lt_abind1, rule tok_lt_analyzeProperty_declare) (intro tok_le_intros)

lemma tok_le_analyzeProperty_declare: "tok_le (analyzeProperty_declare E root)"
  unfolding analyzeProperty_declare_def by (intro tok_le_intros)

lemma tok_le_analyzeProperty: "tok_le (analyzeProperty E root)"
  unfolding analyzeProperty_def by (intro tok_le_intros tok_le_analyzeProperty_declare)


text \<open>The loop of \<^verbatim>\<open>analyzeScope\<close>: \<open>closeScope\<close> is the variable of that name.\<close>

function analyzeScope_loop :: "env \<Rightarrow> node_id \<Rightarrow> Token option \<Rightarrow> unit acomp" where
  "analyzeScope_loop E root closeScope s =
     (case closeScope of
        Some _ \<Rightarrow> areturn () s
      | None \<Rightarrow>
          abind (analyzeProperty E root) (\<lambda>_.
          abind (with_tokens (optionalToken E closeScopeToken)) (\<lambda>c s'.
            analyzeScope_loop E root c s')) s)"
  by pat_completeness auto
termination
proof (relation "measure (\<lambda>(E, root, closeScope, s). ntok s)")
  show "wf (measure (\<lambda>(E, root, closeScope, s). ntok s))" by simp
next
  fix E :: env and root :: node_id and closeScope :: "Token option" and s s1 s2 :: astate and u c
  assume 1: "analyzeProperty E root s = Some (Ok u, s1)"
    and 2: "with_tokens (optionalToken E closeScopeToken) s1 = Some (Ok c, s2)"
  have "ntok s1 < ntok s" using tok_ltD [OF tok_lt_analyzeProperty 1] .
  moreover have "ntok s2 \<le> ntok s1"
    using tok_leD [OF tok_le_with_tokens [OF shrinks_optionalToken] 2] .
  ultimately show "((E, root, c, s2), (E, root, closeScope, s))
      \<in> measure (\<lambda>(E, root, closeScope, s). ntok s)"
    by simp
qed

declare analyzeScope_loop.simps [simp del]

definition analyzeScope :: "env \<Rightarrow> node_id \<Rightarrow> unit acomp" where
  "analyzeScope E root =
     abind (with_tokens (expectToken E openScopeToken)) (\<lambda>_.
     abind (with_tokens (optionalToken E closeScopeToken)) (\<lambda>closeScope.
       analyzeScope_loop E root closeScope))"

definition analyzeClass :: "env \<Rightarrow> node_id \<Rightarrow> unit acomp" where
  "analyzeClass E root =
     abind (NewClassNode (Some root)) (\<lambda>node.
     abind (with_tokens (expectOp OpIdentifier)) (\<lambda>name.
     abind (update_obj node (set_Value (tok_Value name))) (\<lambda>_.
     abind (baseNode_Symbol node) (\<lambda>sp.
     abind (with_heap (\<lambda>h. Some (AddSymbol root (Some sp) h))) (\<lambda>_.
     abind (with_tokens (getQualifierIdentifier E)) (\<lambda>qualifiers.
     abind (with_heap (FindNestedSymbol root (tokenStringValues qualifiers))) (\<lambda>q.
     abind (update_obj node (set_Qualifier q)) (\<lambda>_.
     abind (analyzeScope E node) (\<lambda>_.
     abind (with_tokens (expectOp OpTerminator)) (\<lambda>_. areturn ()))))))))))"

definition analyzeEnum :: "env \<Rightarrow> node_id \<Rightarrow> unit acomp" where
  "analyzeEnum E root =
     abind (NewEnumNode (Some root)) (\<lambda>node.
     abind (with_tokens (expectOp OpIdentifier)) (\<lambda>name.
     abind (update_obj node (set_Value (tok_Value name))) (\<lambda>_.
     abind (baseNode_Symbol node) (\<lambda>sp.
     abind (with_heap (\<lambda>h. Some (AddSymbol root (Some sp) h))) (\<lambda>_.
     abind (with_tokens (getQualifierIdentifier E)) (\<lambda>qualifiers.
     abind (with_heap (FindNestedSymbol root (tokenStringValues qualifiers))) (\<lambda>q.
     abind (update_obj node (set_Qualifier q)) (\<lambda>_.
     abind (with_tokens (optionalToken E flagsToken)) (\<lambda>flag.
     abind (case flag of
              Some _ \<Rightarrow> update_obj node (set_enum_Flags True)
            | None \<Rightarrow> areturn ()) (\<lambda>_.
     abind (analyzeScope E node) (\<lambda>_.
     abind (with_tokens (expectOp OpTerminator)) (\<lambda>_. areturn ()))))))))))))"

definition handleIdentifierToken :: "env \<Rightarrow> Token \<Rightarrow> node_id \<Rightarrow> unit acomp" where
  "handleIdentifierToken E t root s =
     (if ValueString t = ''class'' then analyzeClass E root s
      else if ValueString t = ''enum'' then analyzeEnum E root s
      else afail (Errorf (an s) (tok_Row t) (tok_Col t) (InvalidToken (tok_Raw t))) s)"

text \<open>
  \<^verbatim>\<open>importFile\<close>. \<open>imp\<close> stands for \<^verbatim>\<open>Analyze\<close> of the analyzer made for the
  imported file: it runs on the state whose analyzer is that new analyzer and shares the
  stores; afterwards the importing analyzer goes on with its own queue. \<^verbatim>\<open>Analyze\<close>
  returns a node and an error.
\<close>

type_synonym analysis = "astate \<Rightarrow> ((node_id option \<times> error option) result \<times> astate) option"

definition importFile :: "analysis \<Rightarrow> env \<Rightarrow> string \<Rightarrow> node_id \<Rightarrow> unit acomp" where
  "importFile imp E filename root s =
     (let dir = (if an_filename (an s) \<noteq> [] then FilepathDir E (an_filename (an s)) else []);
          input = FilepathJoin E dir filename
      in case ReadFile E input of
           None \<Rightarrow> Some (Err (FileError input), s)
         | Some data \<Rightarrow>
             (case imp (s\<lparr>an := NewAnalyzer (Some (NewTokenizer data)) input\<rparr>) of
                None \<Rightarrow> None
              | Some (Panic p, s1) \<Rightarrow> Some (Panic p, s1\<lparr>an := an s\<rparr>)
              | Some (Err e, s1) \<Rightarrow> Some (Err e, s1\<lparr>an := an s\<rparr>)
              | Some (Ok (importRoot, Some err), s1) \<Rightarrow> Some (Err err, s1\<lparr>an := an s\<rparr>)
              | Some (Ok (None, None), s1) \<Rightarrow> Some (Panic NilDereference, s1\<lparr>an := an s\<rparr>)
              | Some (Ok (Some importRoot, None), s1) \<Rightarrow>
                  Some (Ok (), s1\<lparr>an := an s,
                     hp := ImportSymbols root importRoot (AdoptChildren root importRoot (hp s1))\<rparr>)))"

definition handlePreprocessToken :: "analysis \<Rightarrow> env \<Rightarrow> Token \<Rightarrow> node_id \<Rightarrow> unit acomp" where
  "handlePreprocessToken imp E t root =
     abind (with_tokens (expectOp OpString)) (\<lambda>nextToken.
       if ValueString t = ''import'' then importFile imp E (tok_Value nextToken) root
       else areturn ())"

definition handleToken :: "analysis \<Rightarrow> env \<Rightarrow> Token \<Rightarrow> node_id \<Rightarrow> unit acomp" where
  "handleToken imp E t root s =
     (case tok_Op t of
        OpPreprocess \<Rightarrow> handlePreprocessToken imp E t root s
      | OpIdentifier \<Rightarrow> handleIdentifierToken E t root s
      | _ \<Rightarrow> afail (Errorf (an s) (tok_Row t) (tok_Col t) (InvalidToken (tok_Raw t))) s)"

lemma tok_le_analyzeScope_loop: "tok_le (analyzeScope_loop E root c)"
proof -
  have "tok_le_at (analyzeScope_loop E root c) s" for s
  proof (induction E root c s rule: analyzeScope_loop.induct)
    case (1 E root closeScope s)
    show ?case
    proof (cases closeScope)
      case (Some tk)
      then show ?thesis by (simp add: tok_le_at_def areturn_def analyzeScope_loop.simps)
    next
      case None
      have eq: "analyzeScope_loop E root closeScope s =
          abind (analyzeProperty E root) (\<lambda>_.
          abind (with_tokens (optionalToken E closeScopeToken)) (\<lambda>c s'.
            analyzeScope_loop E root c s')) s"
        using None by (subst analyzeScope_loop.simps) simp
      have "tok_le_at (abind (analyzeProperty E root) (\<lambda>_.
          abind (with_tokens (optionalToken E closeScopeToken)) (\<lambda>c s'.
            analyzeScope_loop E root c s'))) s"
        apply (rule tok_le_at_abind, rule tok_le_atI [OF tok_le_analyzeProperty])
        apply (rule tok_le_at_abind, rule tok_le_atI [OF tok_le_with_tokens [OF shrinks_optionalToken]])
        subgoal premises a for u s1 c' s2
          using "1.IH" [OF None a(1) a(2)] by (simp add: tok_le_at_def)
        done
      then show ?thesis unfolding tok_le_at_def eq .
    qed
  qed
  then show ?thesis by (auto simp: tok_le_def tok_le_at_def)
qed

lemma tok_le_analyzeScope: "tok_le (analyzeScope E root)"
  unfolding analyzeScope_def by (intro tok_le_intros tok_le_analyzeScope_loop)

lemma tok_le_analyzeClass: "tok_le (analyzeClass E root)"
  unfolding analyzeClass_def by (intro tok_le_intros tok_le_analyzeScope)

lemma tok_le_analyzeEnum: "tok_le (analyzeEnum E root)"
  unfolding analyzeEnum_def by (intro tok_le_intros tok_le_analyzeScope)

lemma tok_le_importFile: "tok_le (importFile imp E filename root)"
  by (auto simp: tok_le_def importFile_def Let_def ntok_def
      split: option.splits result.splits prod.splits)

lemma tok_le_handleToken: "tok_le (handleToken imp E t root)"
proof -
  have 1: "tok_le (handlePreprocessToken imp E t root)"
    unfolding handlePreprocessToken_def by (intro tok_le_intros tok_le_importFile)
  have 2: "tok_le (handleIdentifierToken E t root)"
    using tok_le_analyzeClass [of E root] tok_le_analyzeEnum [of E root]
    by (auto simp: tok_le_def handleIdentifierToken_def afail_def)
  show ?thesis
    using 1 2 by (cases "tok_Op t") (auto simp: tok_le_def handleToken_def afail_def)
qed

text \<open>The loop of \<^verbatim>\<open>Analyze\<close> over the queue: \<open>t\<close> is the token dequeued last.\<close>

function Analyze_loop :: "analysis \<Rightarrow> env \<Rightarrow> node_id \<Rightarrow> Token option \<Rightarrow> unit acomp" where
  "Analyze_loop imp E root t s =
     (case t of
        None \<Rightarrow> areturn () s
      | Some tk \<Rightarrow>
          (case tok_Error tk of
             Some err \<Rightarrow> afail err s
           | None \<Rightarrow>
               abind (handleToken imp E tk root) (\<lambda>_ s1.
                 Analyze_loop imp E root (fst (Dequeue (an_tokens (an s1))))
                   (s1\<lparr>an := (an s1)\<lparr>an_tokens := snd (Dequeue (an_tokens (an s1)))\<rparr>\<rparr>)) s))"
  by pat_completeness auto
termination
proof (relation "measure (\<lambda>(imp, E, root, t, s). ntok s + (case t of None \<Rightarrow> 0 | Some _ \<Rightarrow> 1))")
  show "wf (measure (\<lambda>(imp, E, root, t, s). ntok s + (case t of None \<Rightarrow> 0 | Some _ \<Rightarrow> 1)))"
    by simp
next
  fix imp :: analysis and E :: env and root :: node_id and t :: "Token option" and tk :: Token
    and s s1 :: astate and u
  assume t: "t = Some tk" and 1: "handleToken imp E tk root s = Some (Ok u, s1)"
  have "ntok s1 \<le> ntok s" using tok_leD [OF tok_le_handleToken 1] .
  then show "((imp, E, root, fst (Dequeue (an_tokens (an s1))),
        s1\<lparr>an := (an s1)\<lparr>an_tokens := snd (Dequeue (an_tokens (an s1)))\<rparr>\<rparr>),
       (imp, E, root, t, s))
      \<in> measure (\<lambda>(imp, E, root, t, s). ntok s + (case t of None \<Rightarrow> 0 | Some _ \<Rightarrow> 1))"
    using t by (auto simp: ntok_def Dequeue_def split: list.splits)
qed

declare Analyze_loop.simps [simp del]

text \<open>
  \<^verbatim>\<open>Analyze\<close>. An import runs \<^verbatim>\<open>Analyze\<close> again, on the imported file, and
  nothing bounds the depth of imports (a file that imports itself never returns). The first
  argument bounds that depth: \<open>Analyze k\<close> has a value when the run nests imports less
  than \<open>k\<close> deep. The deferred \<^verbatim>\<open>fmt.Println(a.filename)\<close> only prints.
\<close>

primrec Analyze :: "nat \<Rightarrow> env \<Rightarrow> analysis" where
  "Analyze 0 E = (\<lambda>s. None)"
| "Analyze (Suc k) E = (\<lambda>s.
     case an_t (an s) of
       None \<Rightarrow> Some (Ok (None, Some UninitializedAnalyzer), s)
     | Some t \<Rightarrow>
         (case NewNode None (hp s) of
            (root, h1) \<Rightarrow>
              (case Tokenize t of
                 Inl err \<Rightarrow> Some (Ok (Some root, Some err), s\<lparr>hp := h1\<rparr>)
               | Inr tokens \<Rightarrow>
                   (case Analyze_loop (Analyze k E) E root (fst (Dequeue tokens))
                           (s\<lparr>hp := h1, an := (an s)\<lparr>an_tokens := snd (Dequeue tokens)\<rparr>\<rparr>) of
                      None \<Rightarrow> None
                    | Some (Ok _, s1) \<Rightarrow> Some (Ok (Some root, None), s1)
                    | Some (Err e, s1) \<Rightarrow> Some (Ok (Some root, Some e), s1)
                    | Some (Panic p, s1) \<Rightarrow> Some (Panic p, s1)))))"

declare Analyze.simps [simp del]

section \<open>Notions used to state the claims\<close>





text \<open>A property of the state that a computation keeps, whatever it returns.\<close>

definition preserves :: "(astate \<Rightarrow> bool) \<Rightarrow> 'a acomp \<Rightarrow> bool" where
  "preserves I m \<longleftrightarrow> (\<forall>s r s'. I s \<longrightarrow> m s = Some (r, s') \<longrightarrow> I s')"

text \<open>The new property node has no symbol and the enclosing scope for parent, unless the
  enclosing scope is the address the new node gets.\<close>

definition fresh_under :: "node_id \<Rightarrow> node_id \<Rightarrow> astate \<Rightarrow> bool" where
  "fresh_under root node s \<longleftrightarrow>
     node = root \<or> (symbols (nodes (hp s) node) = [] \<and> parent (nodes (hp s) node) = Some root)"

text \<open>A namespaced identifier as a run of tokens, \<open>X\<close> or \<open>X :: Y\<close>, and the path it
  names.\<close>

fun ns_ident :: "Token list \<Rightarrow> bool" where
  "ns_ident [a] = (tok_Op a = OpIdentifier)"
| "ns_ident [a, n, b] = (tok_Op a = OpIdentifier \<and> tok_Op n = OpNamespace \<and> tok_Op b = OpIdentifier)"
| "ns_ident _ = False"

fun ns_path :: "Token list \<Rightarrow> string list" where
  "ns_path [a, n, b] = [tok_Value a, tok_Value b]"
| "ns_path ts = map tok_Value ts"

text \<open>The tokens of a default chain: a first namespaced identifier \<open>e\<close>, then pairs of a
  separator token and a namespaced identifier. Each separator is a token of its own (the
  lexer gives each its row and column). \<open>chain_elements\<close> are the identifiers of the
  chain, in order.\<close>

fun chain_tokens :: "Token list \<Rightarrow> (Token \<times> Token list) list \<Rightarrow> Token list" where
  "chain_tokens e [] = e"
| "chain_tokens e ((b, e') # bes) = e @ b # chain_tokens e' bes"

definition chain_elements :: "Token list \<Rightarrow> (Token \<times> Token list) list \<Rightarrow> Token list list" where
  "chain_elements e bes = e # map snd bes"

text \<open>Every separator of the chain is equal, as a token, to \<^verbatim>\<open>binaryOrToken\<close>, and what
  follows it is a namespaced identifier.\<close>

fun chain_ok :: "env \<Rightarrow> (Token \<times> Token list) list \<Rightarrow> bool" where
  "chain_ok E [] = True"
| "chain_ok E ((b, e') # bes) = (Token_Equal E binaryOrToken b \<and> ns_ident e' \<and> chain_ok E bes)"

text \<open>Resolving the paths of a chain one after the other with \<^verbatim>\<open>FindNestedSymbol\<close>
  against the same node, each on the store the one before left: the symbols found, in
  order, and the final store; no value when a resolution yields nil, panics or does not
  return.\<close>

fun resolve_chain :: "node_id \<Rightarrow> string list list \<Rightarrow> heap \<Rightarrow> (sym_id list \<times> heap) option" where
  "resolve_chain node [] h = Some ([], h)"
| "resolve_chain node (p # ps) h =
     (case FindNestedSymbol node p h of
        Some (Ok (Some sp), h1) \<Rightarrow>
          (case resolve_chain node ps h1 of
             Some (sps, h2) \<Rightarrow> Some (sp # sps, h2)
           | None \<Rightarrow> None)
      | _ \<Rightarrow> None)"

text \<open>A property of every value that a computation returns.\<close>

definition returns :: "('a \<Rightarrow> bool) \<Rightarrow> 'a acomp \<Rightarrow> bool" where
  "returns Q m \<longleftrightarrow> (\<forall>s x s'. m s = Some (Ok x, s') \<longrightarrow> Q x)"

text \<open>What the declaration part leaves true of the new property node: it is a property
  node with no default yet, and its parent is the enclosing scope.\<close>

definition declared :: "node_id \<Rightarrow> node_id \<Rightarrow> astate \<Rightarrow> bool" where
  "declared root node s \<longleftrightarrow>
     (\<exists>p. objs s node = Property p \<and> prp_Default p = []) \<and> parent (nodes (hp s) node) = Some root"

text \<open>The shape the identifier branch \<^verbatim>\<open>-?[a-zA-Z_0-9][a-zA-Z0-9_.]*\<close> accepts.\<close>

fun ident_shape :: "string \<Rightarrow> bool" where
  "ident_shape [] = False"
| "ident_shape (c # cs) =
     (if c = CHR ''-'' then cs \<noteq> [] \<and> ident_first (hd cs) \<and> list_all ident_rest (tl cs)
      else ident_first c \<and> list_all ident_rest cs)"

text \<open>The shape in the words of the specification: a letter, an underscore or a leading
  \<^verbatim>\<open>-\<close>, then letters, digits, underscores and dots.\<close>

fun spec_ident_shape :: "string \<Rightarrow> bool" where
  "spec_ident_shape [] = False"
| "spec_ident_shape (c # cs) =
     ((is_letter c \<or> c = CHR ''_'' \<or> c = CHR ''-'') \<and> list_all ident_rest cs)"

section \<open>Concrete heaps and inputs\<close>

text \<open>A root (node 0) that declares \<open>A\<close> (symbol 0), a child of it (node 1) with an
  empty table, and a second symbol named \<open>A\<close> (symbol 1) that is in no table yet.\<close>

definition shadow_heap :: heap where
  "shadow_heap =
     (let (r, h1) = NewNode None empty_heap;
          (c, h2) = NewNode (Some r) h1;
          (_, h3) = CreateSymbol r ''A'' None h2;
          (_, h4) = alloc_Symbol \<lparr>sym_Value = ''A'', sym_Scope = None, sym_Node = None\<rparr> h3
      in h4)"

text \<open>The outside world of the examples: no folding beyond ASCII, paths that are file
  names, and one file \<open>b\<close> that declares a class \<open>A\<close>.\<close>

definition src_b :: string where
  "src_b = ''class A { };''"

definition example_env :: env where
  "example_env = \<lparr>FoldReaches = (\<lambda>_ _. False), FilepathDir = (\<lambda>_. []),
     FilepathJoin = (\<lambda>dir f. f),
     ReadFile = (\<lambda>f. if f = ''b'' then Some src_b else None)\<rparr>"

text \<open>The state in which \<^verbatim>\<open>Analyze\<close> starts on the source text of a file \<open>main\<close>.\<close>

definition initial_state :: "string \<Rightarrow> astate" where
  "initial_state src = \<lparr>an = NewAnalyzer (Some (NewTokenizer src)) ''main'', hp = empty_heap,
     objs = (\<lambda>_. Plain)\<rparr>"

text \<open>A token as the lexer makes it, for the examples: its group, its value, the raw
  match, and the row and column the lexer reports.\<close>

definition tok :: "OpCode \<Rightarrow> string \<Rightarrow> string \<Rightarrow> int \<Rightarrow> int \<Rightarrow> Token" where
  "tok op v raw row col = \<lparr>tok_Op = op, tok_Name = OpCode_String op, tok_Value = v, tok_Raw = raw,
     tok_Row = row, tok_Col = col, tok_Error = None\<rparr>"

text \<open>Two tables that share a name: node 0 declares \<open>A\<close> (symbol 0), node 1 declares
  \<open>A\<close> (symbol 1) and \<open>B\<close> (symbol 2).\<close>

definition import_heap :: heap where
  "import_heap =
     (let (r, h1) = NewNode None empty_heap;
          (other, h2) = NewNode None h1;
          (_, h3) = CreateSymbol r ''A'' None h2;
          (_, h4) = CreateSymbol other ''A'' None h3;
          (_, h5) = CreateSymbol other ''B'' None h4
      in h5)"

text \<open>A file that imports \<open>b\<close> and then declares the class \<open>A\<close> that \<open>b\<close>
  declares, and one that declares it first and imports \<open>b\<close> afterwards.\<close>

definition src_import_first :: string where
  "src_import_first = ''#import '' @ [CHR 0x22] @ ''b'' @ [CHR 0x22] @ '' class A { };''"

definition src_import_last :: string where
  "src_import_last = ''class A { }; #import '' @ [CHR 0x22] @ ''b'' @ [CHR 0x22]"

text \<open>A directive other than \<open>import\<close>, followed by a class.\<close>

definition src_directive :: string where
  "src_directive = ''#foo class A { };''"


text \<open>The state in which the properties of a class \<open>M\<close> are analysed: the root (node 0)
  declares \<open>M\<close> (node 1, symbol 0), and the queue holds the given tokens.\<close>

definition class_scope_state :: "Token list \<Rightarrow> astate" where
  "class_scope_state toks =
     (let (r, h1) = NewNode None empty_heap;
          (c, h2) = newNode (Some r) True h1;
          (_, h3) = CreateSymbol r ''M'' (Some c) h2
      in \<lparr>an = \<lparr>an_t = None, an_tokens = toks, an_filename = ''main''\<rparr>, hp = h3,
           objs = (\<lambda>_. Plain)(c := Class \<lparr>cls_Value = ''M'', cls_Qualifier = None\<rparr>)\<rparr>)"

text \<open>A default that names a namespace \<open>E\<close> declared nowhere.\<close>

definition src_unknown_namespace :: string where
  "src_unknown_namespace = ''class M { y = E::y; };''"


text \<open>A state inside the braces of a class \<open>M\<close>, after an enum \<open>MyEnum2\<close> that
  declares \<open>y\<close>; the class has declared \<open>C\<close>.\<close>

definition enum_class_state :: "Token list \<Rightarrow> astate" where
  "enum_class_state toks =
     (let (r, h1) = NewNode None empty_heap;
          (e, h2) = newNode (Some r) True h1;
          (_, h3) = CreateSymbol r ''MyEnum2'' (Some e) h2;
          (py, h4) = newNode (Some e) True h3;
          (_, h5) = CreateSymbol e ''y'' (Some py) h4;
          (c, h6) = newNode (Some r) True h5;
          (_, h7) = CreateSymbol r ''M'' (Some c) h6;
          (pc, h8) = newNode (Some c) True h7;
          (_, h9) = CreateSymbol c ''C'' (Some pc) h8
      in \<lparr>an = \<lparr>an_t = None, an_tokens = toks, an_filename = ''main''\<rparr>, hp = h9,
           objs = (\<lambda>_. Plain)\<rparr>)"

text \<open>A class with a default chain of three elements, after an enum that declares
  \<open>y\<close>, and the tokens the lexer makes of the property \<^verbatim>\<open>y = C | MyEnum2::y | C;\<close>
  and of the end of the class.\<close>

definition src_default_chain :: string where
  "src_default_chain = ''enum MyEnum2 { y; }; class M { C; y = C | MyEnum2::y | C; };''"

definition default_chain_tokens :: "Token list" where
  "default_chain_tokens =
     [tok OpIdentifier ''y'' ''y'' 1 36, tok OpOperator ''='' ''='' 1 38,
      tok OpIdentifier ''C'' ''C'' 1 40, tok OpOperator ''|'' ''|'' 1 42,
      tok OpIdentifier ''MyEnum2'' ''MyEnum2'' 1 50, tok OpNamespace ''::'' ''::'' 1 52,
      tok OpIdentifier ''y'' ''y'' 1 53, tok OpOperator ''|'' ''|'' 1 55,
      tok OpIdentifier ''C'' ''C'' 1 57, tok OpTerminator '';'' '';'' 1 58,
      tok OpOperator ''}'' ''}'' 1 60, tok OpTerminator '';'' '';'' 1 61]"



section \<open>Lemmas about the tree and symbol model\<close>

lemma map_of_snoc:
  "map_of (xs @ [(k, v)]) k' =
     (case map_of xs k' of Some y \<Rightarrow> Some y | None \<Rightarrow> if k' = k then Some v else None)"
  by (induction xs) auto

lemmas lexer_defs = Tokenize_def NewTokenizer_def FindAllSubmatchIndex_def
  FindAllSubmatchIndex_from.simps slice_def countRunes_def countRunes_from.simps RuneError_def
  cont_byte_def is_space_def ident_first_def ident_rest_def is_letter_def
  is_digit_def is_operator_def not_newline_def match_string_def

lemmas analyzer_defs = Analyze_loop.simps analyzeScope_loop.simps analyzeDefaults.simps
  handleToken_def handlePreprocessToken_def handleIdentifierToken_def importFile_def
  analyzeClass_def analyzeEnum_def analyzeScope_def analyzeProperty_def
  analyzeProperty_declare_def property_names_def
  abind_def areturn_def afail_def with_tokens_def with_heap_def update_obj_def
  expectOp_def expectToken_def optionalOp_def optionalToken_def Peek_def Dequeue_def tbind_def
  getNamespacedIdentifier_def getQualifierIdentifier_def Errorf_def
  token_lit_def openQualifierToken_def closeQualifierToken_def openScopeToken_def
  closeScopeToken_def assignmentToken_def binaryOrToken_def obsoleteToken_def flagsToken_def
  Token_Equal_def EqualFold.simps next_rune_def RuneSelf_def ValueString_def tokenStringValues_def
  NewClassNode_def NewEnumNode_def NewPropertyNode_def baseNode_Symbol_def AddDefault_def
  NewAnalyzer_def FindNestedSymbol_def FindSymbol.simps
  AdoptChildren_def ClearChildren_def ImportSymbols_def Symbols_def tok_def

lemma Analyze_0: "Analyze 0 E s = None"
  by (simp add: Analyze.simps)

lemma Analyze_Suc:
  "Analyze (Suc k) E s =
    (case an_t (an s) of
       None \<Rightarrow> Some (Ok (None, Some UninitializedAnalyzer), s)
     | Some t \<Rightarrow>
         (case NewNode None (hp s) of
            (root, h1) \<Rightarrow>
              (case Tokenize t of
                 Inl err \<Rightarrow> Some (Ok (Some root, Some err), s\<lparr>hp := h1\<rparr>)
               | Inr tokens \<Rightarrow>
                   (case Analyze_loop (Analyze k E) E root (fst (Dequeue tokens))
                           (s\<lparr>hp := h1, an := (an s)\<lparr>an_tokens := snd (Dequeue tokens)\<rparr>\<rparr>) of
                      None \<Rightarrow> None
                    | Some (Ok _, s1) \<Rightarrow> Some (Ok (Some root, None), s1)
                    | Some (Err e, s1) \<Rightarrow> Some (Ok (Some root, Some e), s1)
                    | Some (Panic p, s1) \<Rightarrow> Some (Panic p, s1)))))"
  by (simp add: Analyze.simps)

text \<open>A run of \<open>Analyze\<close> on a source text, from the tokens of the text and the run of
  the loop on them.\<close>

lemma Analyze_initial:
  assumes "Tokenize (NewTokenizer src) = Inr (t0 # rest)"
  shows "Analyze (Suc k) E (initial_state src) =
    (case Analyze_loop (Analyze k E) E 0 (Some t0)
            \<lparr>an = \<lparr>an_t = Some (NewTokenizer src), an_tokens = rest, an_filename = ''main''\<rparr>,
               hp = snd (NewNode None empty_heap), objs = (\<lambda>_. Plain)\<rparr> of
       None \<Rightarrow> None
     | Some (Ok _, s1) \<Rightarrow> Some (Ok (Some 0, None), s1)
     | Some (Err e, s1) \<Rightarrow> Some (Ok (Some 0, Some e), s1)
     | Some (Panic p, s1) \<Rightarrow> Some (Panic p, s1))"
  using assms
  by (simp add: Analyze_Suc initial_state_def NewAnalyzer_def NewNode_def newNode_def Dequeue_def
      empty_heap_def)

lemma Analyze_initial_panic:
  assumes "Tokenize (NewTokenizer src) = Inr (t0 # rest)"
    and "map_option fst (Analyze_loop (Analyze k E) E 0 (Some t0)
            \<lparr>an = \<lparr>an_t = Some (NewTokenizer src), an_tokens = rest, an_filename = ''main''\<rparr>,
               hp = snd (NewNode None empty_heap), objs = (\<lambda>_. Plain)\<rparr>) = Some (Panic p)"
  shows "map_option fst (Analyze (Suc k) E (initial_state src)) = Some (Panic p)"
proof -
  from assms(2) obtain s1 where "Analyze_loop (Analyze k E) E 0 (Some t0)
            \<lparr>an = \<lparr>an_t = Some (NewTokenizer src), an_tokens = rest, an_filename = ''main''\<rparr>,
               hp = snd (NewNode None empty_heap), objs = (\<lambda>_. Plain)\<rparr> = Some (Panic p, s1)"
    by (cases "Analyze_loop (Analyze k E) E 0 (Some t0)
            \<lparr>an = \<lparr>an_t = Some (NewTokenizer src), an_tokens = rest, an_filename = ''main''\<rparr>,
               hp = snd (NewNode None empty_heap), objs = (\<lambda>_. Plain)\<rparr>") auto
  then show ?thesis by (simp add: Analyze_initial [OF assms(1)])
qed

lemma Analyze_initial_result:
  assumes "Tokenize (NewTokenizer src) = Inr (t0 # rest)"
    and "map_option (\<lambda>(r, s). (r, f s)) (Analyze_loop (Analyze k E) E 0 (Some t0)
            \<lparr>an = \<lparr>an_t = Some (NewTokenizer src), an_tokens = rest, an_filename = ''main''\<rparr>,
               hp = snd (NewNode None empty_heap), objs = (\<lambda>_. Plain)\<rparr>) = Some (r, x)"
  shows "map_option (\<lambda>(r, s). (r, f s)) (Analyze (Suc k) E (initial_state src)) =
    (case r of Ok _ \<Rightarrow> Some (Ok (Some 0, None), x)
             | Err e \<Rightarrow> Some (Ok (Some 0, Some e), x)
             | Panic p \<Rightarrow> Some (Panic p, x))"
proof -
  from assms(2) obtain s1 where "Analyze_loop (Analyze k E) E 0 (Some t0)
            \<lparr>an = \<lparr>an_t = Some (NewTokenizer src), an_tokens = rest, an_filename = ''main''\<rparr>,
               hp = snd (NewNode None empty_heap), objs = (\<lambda>_. Plain)\<rparr> = Some (r, s1)" "f s1 = x"
    by (cases "Analyze_loop (Analyze k E) E 0 (Some t0)
            \<lparr>an = \<lparr>an_t = Some (NewTokenizer src), an_tokens = rest, an_filename = ''main''\<rparr>,
               hp = snd (NewNode None empty_heap), objs = (\<lambda>_. Plain)\<rparr>") auto
  then show ?thesis by (cases r) (simp_all add: Analyze_initial [OF assms(1)])
qed

lemma src_b_tokens:
  "Tokenize (NewTokenizer src_b) =
     Inr [tok OpIdentifier ''class'' ''class'' 1 6, tok OpIdentifier ''A'' ''A'' 1 8,
          tok OpOperator ''{'' ''{'' 1 10, tok OpOperator ''}'' ''}'' 1 12,
          tok OpTerminator '';'' '';'' 1 13]"
  by (simp add: src_b_def tok_def lexer_defs Let_def)

lemmas heap_defs = NewNode_def newNode_def AddChild_def SetParent_def CreateSymbol_def
  alloc_Symbol_def AddSymbol_def empty_heap_def empty_node_def Let_def

lemma shadow_heap_facts:
  "parent (nodes shadow_heap 1) = Some 0 \<and> map_of (symbols (nodes shadow_heap 0)) ''A'' = Some 0
   \<and> symbols (nodes shadow_heap 1) = [] \<and> sym_Value (syms shadow_heap 1) = ''A''"
  by (simp add: shadow_heap_def heap_defs)

lemma CreateSymbol_fresh:
  "v \<noteq> [] \<Longrightarrow> map_of (symbols (nodes h n)) v = None \<Longrightarrow>
   CreateSymbol n v nd h =
     (Ok (next_sym h),
      h\<lparr>syms := (syms h)(next_sym h := \<lparr>sym_Value = v, sym_Scope = Some n, sym_Node = nd\<rparr>),
        next_sym := Suc (next_sym h),
        nodes := (nodes h)(n := (nodes h n)\<lparr>symbols := symbols (nodes h n) @ [(v, next_sym h)]\<rparr>)\<rparr>)"
  by (simp add: CreateSymbol_def alloc_Symbol_def AddSymbol_def)

lemma FindSymbol_chain_absent:
  "scope_chain h n ms \<Longrightarrow> \<forall>m\<in>set ms. map_of (symbols (nodes h m)) v = None \<Longrightarrow>
   FindSymbol n v False h = Some (Ok None, h)"
proof (induction rule: scope_chain.induct)
  case (top h n)
  then show ?case by (subst FindSymbol.simps) simp
next
  case (up h n p ms)
  then show ?case by (subst FindSymbol.simps) simp
qed

lemma FindSymbol_chain_create:
  "scope_chain h n ms \<Longrightarrow> \<forall>m\<in>set ms. map_of (symbols (nodes h m)) v = None \<Longrightarrow> v \<noteq> [] \<Longrightarrow>
   FindSymbol n v True h =
     Some (Ok (Some (next_sym h)), snd (CreateSymbol (last ms) v (owner (nodes h (last ms))) h))"
proof (induction rule: scope_chain.induct)
  case (top h n)
  then show ?case by (subst FindSymbol.simps) (simp add: CreateSymbol_fresh)
next
  case (up h n p ms)
  from up.hyps(2) have "ms \<noteq> []" by (cases rule: scope_chain.cases) auto
  with up show ?case by (subst FindSymbol.simps) simp
qed

lemma FindSymbol_chain_found:
  "scope_chain h n ms \<Longrightarrow> ms = pre @ m # post \<Longrightarrow>
   \<forall>x\<in>set pre. map_of (symbols (nodes h x)) v = None \<Longrightarrow>
   map_of (symbols (nodes h m)) v = Some sp \<Longrightarrow>
   FindSymbol n v create h = Some (Ok (Some sp), h)"
proof (induction arbitrary: pre rule: scope_chain.induct)
  case (top h n)
  then show ?case by (subst FindSymbol.simps) (auto simp: Cons_eq_append_conv)
next
  case (up h n p ms)
  show ?case
  proof (cases pre)
    case Nil
    with up.prems show ?thesis by (subst FindSymbol.simps) simp
  next
    case (Cons a pre')
    with up.prems have "ms = pre' @ m # post" "a = n" by auto
    with up Cons show ?thesis by (subst FindSymbol.simps) simp
  qed
qed

lemma shadow_heap_chain: "scope_chain shadow_heap 1 [1, 0]"
proof -
  have "parent (nodes shadow_heap 0) = None" "parent (nodes shadow_heap 1) = Some 0"
    by (simp_all add: shadow_heap_def heap_defs)
  then show ?thesis by (auto intro: scope_chain.intros)
qed

lemma shadow_heap_tables:
  "symbols (nodes shadow_heap 0) = [(''A'', 0)]" "symbols (nodes shadow_heap (Suc 0)) = []"
  "owner (nodes shadow_heap 0) = None" "next_sym shadow_heap = 2"
  by (simp_all add: shadow_heap_def heap_defs)

lemma AddSymbol_Value: "sym_Value (syms (snd (AddSymbol n s h)) x) = sym_Value (syms h x)"
  by (cases s) (simp_all add: AddSymbol_def)

lemma AddSymbol_table:
  "map_of (symbols (nodes (snd (AddSymbol n (Some sp) h)) n)) v =
     (case map_of (symbols (nodes h n)) v of
        Some s0 \<Rightarrow> Some s0
      | None \<Rightarrow> if v \<noteq> [] \<and> sym_Value (syms h sp) = v then Some sp else None)"
  by (auto simp: AddSymbol_def map_add_def split: option.splits)

lemma ImportSymbols_loop_step:
  "ImportSymbols_loop n (sp # rest) h = ImportSymbols_loop n rest (snd (AddSymbol n (Some sp) h))"
  by (simp split: prod.splits result.splits)

lemma ImportSymbols_loop_table:
  "map_of (symbols (nodes (ImportSymbols_loop n ss h) n)) v =
     (case map_of (symbols (nodes h n)) v of
        Some s0 \<Rightarrow> Some s0
      | None \<Rightarrow> if v = [] then None else find (\<lambda>sp. sym_Value (syms h sp) = v) ss)"
proof (induction ss arbitrary: h)
  case Nil
  then show ?case by (simp split: option.splits)
next
  case (Cons sp rest)
  show ?case
    unfolding ImportSymbols_loop_step Cons.IH AddSymbol_table
    by (auto simp: AddSymbol_Value split: option.splits)
qed

lemma find_unique:
  "distinct ss \<Longrightarrow> inj_on f (set ss) \<Longrightarrow> sp \<in> set ss \<Longrightarrow> find (\<lambda>x. f x = f sp) ss = Some sp"
  by (induction ss) (auto simp: inj_on_def)

lemma table_ok_inj:
  assumes "table_ok h other"
  shows "inj_on (\<lambda>sp. sym_Value (syms h sp)) (set (Symbols other h))"
proof (rule inj_onI)
  fix x y
  assume x: "x \<in> set (Symbols other h)" and y: "y \<in> set (Symbols other h)"
    and eq: "sym_Value (syms h x) = sym_Value (syms h y)"
  from x obtain kx where kx: "(kx, x) \<in> set (symbols (nodes h other))" by (auto simp: Symbols_def)
  from y obtain ky where ky: "(ky, y) \<in> set (symbols (nodes h other))" by (auto simp: Symbols_def)
  from assms kx ky have "sym_Value (syms h x) = kx" "sym_Value (syms h y) = ky"
    by (auto simp: table_ok_def list_all_iff)
  with eq have "kx = ky" by simp
  moreover from assms have "distinct (map fst (symbols (nodes h other)))" by (simp add: table_ok_def)
  ultimately show "x = y" using kx ky by (metis eq_key_imp_eq_value)
qed

lemma table_ok_names:
  "table_ok h other \<Longrightarrow> sp \<in> set (Symbols other h) \<Longrightarrow> sym_Value (syms h sp) \<noteq> []"
  by (auto simp: table_ok_def list_all_iff Symbols_def)

lemma ImportSymbols_loop_keeps:
  "map_of (symbols (nodes h n)) v = Some s0 \<Longrightarrow>
   map_of (symbols (nodes (ImportSymbols_loop n ss h) n)) v = Some s0"
  by (simp add: ImportSymbols_loop_table)

lemma ImportSymbols_loop_adds:
  assumes "table_ok h other" "set ss = set (Symbols other h)" "distinct ss"
    and "sp \<in> set (Symbols other h)"
    and "map_of (symbols (nodes h n)) (sym_Value (syms h sp)) = None"
  shows "map_of (symbols (nodes (ImportSymbols_loop n ss h) n)) (sym_Value (syms h sp)) = Some sp"
proof -
  have "inj_on (\<lambda>sp. sym_Value (syms h sp)) (set ss)"
    using table_ok_inj [OF assms(1)] assms(2) by simp
  then have "find (\<lambda>x. sym_Value (syms h x) = sym_Value (syms h sp)) ss = Some sp"
    using find_unique [of ss "\<lambda>sp. sym_Value (syms h sp)" sp] assms by simp
  with assms table_ok_names [OF assms(1) assms(4)] show ?thesis
    by (simp add: ImportSymbols_loop_table)
qed

lemma table_ok_distinct: "table_ok h other \<Longrightarrow> distinct (Symbols other h)"
proof -
  assume ok: "table_ok h other"
  then have "map fst (symbols (nodes h other)) = map (\<lambda>sp. sym_Value (syms h sp)) (Symbols other h)"
    by (auto simp: table_ok_def list_all_iff Symbols_def)
  moreover from ok have "distinct (map fst (symbols (nodes h other)))" by (simp add: table_ok_def)
  ultimately show ?thesis by (metis distinct_map)
qed

lemma find_same:
  assumes "distinct xs" "distinct ys" "set xs = set ys" "inj_on f (set xs)"
  shows "find (\<lambda>x. f x = v) xs = find (\<lambda>x. f x = v) ys"
proof (cases "\<exists>x\<in>set xs. f x = v")
  case True
  then obtain x where x: "x \<in> set xs" "f x = v" by blast
  have "find (\<lambda>y. f y = f x) xs = Some x" using find_unique [OF assms(1) assms(4) x(1)] .
  moreover have "find (\<lambda>y. f y = f x) ys = Some x"
    using find_unique [OF assms(2), of f x] assms(3,4) x(1) by simp
  ultimately show ?thesis using x(2) by simp
next
  case False
  then have "find (\<lambda>x. f x = v) xs = None" by (auto simp: find_None_iff)
  moreover from False assms(3) have "find (\<lambda>x. f x = v) ys = None" by (auto simp: find_None_iff)
  ultimately show ?thesis by simp
qed

lemma ImportSymbols_order:
  assumes "table_ok h other" "set ss = set (Symbols other h)" "distinct ss"
  shows "map_of (symbols (nodes (ImportSymbols_loop n ss h) n)) =
         map_of (symbols (nodes (ImportSymbols n other h) n))"
proof
  fix v
  have "find (\<lambda>sp. sym_Value (syms h sp) = v) ss = find (\<lambda>sp. sym_Value (syms h sp) = v) (Symbols other h)"
    using find_same [OF assms(3) table_ok_distinct [OF assms(1)] assms(2)] table_ok_inj [OF assms(1)] assms(2)
    by simp
  then show "map_of (symbols (nodes (ImportSymbols_loop n ss h) n)) v =
         map_of (symbols (nodes (ImportSymbols n other h) n)) v"
    by (simp add: ImportSymbols_def ImportSymbols_loop_table split: option.splits)
qed

lemma importFile_merge:
  "ReadFile E (FilepathJoin E (if an_filename (an s) \<noteq> [] then FilepathDir E (an_filename (an s)) else []) f) = Some data \<Longrightarrow>
   imp (s\<lparr>an := NewAnalyzer (Some (NewTokenizer data))
      (FilepathJoin E (if an_filename (an s) \<noteq> [] then FilepathDir E (an_filename (an s)) else []) f)\<rparr>)
     = Some (Ok (Some r, None), s1) \<Longrightarrow>
   importFile imp E f root s =
     Some (Ok (), s1\<lparr>an := an s, hp := ImportSymbols root r (AdoptChildren root r (hp s1))\<rparr>)"
  by (simp add: importFile_def Let_def)

lemma import_heap_facts:
  "symbols (nodes import_heap 0) = [(''A'', 0)]"
  "symbols (nodes import_heap (Suc 0)) = [(''A'', Suc 0), (''B'', 2)]"
  "sym_Value (syms import_heap (Suc 0)) = ''A''" "sym_Value (syms import_heap 2) = ''B''"
  by (simp_all add: import_heap_def heap_defs)

lemma import_heap_ok: "table_ok import_heap (Suc 0)"
  by (simp add: table_ok_def import_heap_facts)

lemma handlePreprocessToken_other:
  "ValueString t \<noteq> ''import'' \<Longrightarrow>
   handlePreprocessToken imp E t root s =
     (case an_tokens (an s) of
        [] \<Rightarrow> Some (Err (Errorf (an s) (- 1) (- 1) EOF), s)
      | n # rest \<Rightarrow>
          if tok_Op n = OpString then Some (Ok (), s\<lparr>an := (an s)\<lparr>an_tokens := rest\<rparr>\<rparr>)
          else Some (Err (Errorf (an s) (tok_Row n) (tok_Col n) (UnexpectedToken (tok_Raw n))), s))"
  by (simp add: handlePreprocessToken_def abind_def with_tokens_def expectOp_def Peek_def
      Dequeue_def areturn_def split: list.splits)

lemma handlePreprocessToken_import:
  "ValueString t = ''import'' \<Longrightarrow>
   handlePreprocessToken imp E t root s =
     (case an_tokens (an s) of
        [] \<Rightarrow> Some (Err (Errorf (an s) (- 1) (- 1) EOF), s)
      | n # rest \<Rightarrow>
          if tok_Op n = OpString
          then importFile imp E (tok_Value n) root (s\<lparr>an := (an s)\<lparr>an_tokens := rest\<rparr>\<rparr>)
          else Some (Err (Errorf (an s) (tok_Row n) (tok_Col n) (UnexpectedToken (tok_Raw n))), s))"
  by (simp add: handlePreprocessToken_def abind_def with_tokens_def expectOp_def Peek_def
      Dequeue_def areturn_def split: list.splits)






lemma optionalToken_eq:
  "optionalToken E t a =
     (case an_tokens a of
        [] \<Rightarrow> (Ok None, a)
      | t2 # rest \<Rightarrow>
          if Token_Equal E t t2 then (Ok (Some t2), a\<lparr>an_tokens := rest\<rparr>) else (Ok None, a))"
  by (simp add: optionalToken_def Peek_def Dequeue_def split: list.splits)


lemma getNamespacedIdentifier_single:
  "an_tokens a = x # rest \<Longrightarrow> tok_Op x = OpIdentifier \<Longrightarrow>
   rest = [] \<or> tok_Op (hd rest) \<noteq> OpNamespace \<Longrightarrow>
   getNamespacedIdentifier a = (Ok [x], a\<lparr>an_tokens := rest\<rparr>)"
  by (cases rest)
     (auto simp: getNamespacedIdentifier_def tbind_def expectOp_def optionalOp_def Peek_def Dequeue_def)

lemma getNamespacedIdentifier_pair:
  "an_tokens a = x # n # y # rest \<Longrightarrow> tok_Op x = OpIdentifier \<Longrightarrow> tok_Op n = OpNamespace \<Longrightarrow>
   tok_Op y = OpIdentifier \<Longrightarrow>
   getNamespacedIdentifier a = (Ok [x, y], a\<lparr>an_tokens := rest\<rparr>)"
  by (simp add: getNamespacedIdentifier_def tbind_def expectOp_def optionalOp_def Peek_def Dequeue_def)

lemma FindNestedSymbol_unknown_first:
  assumes "scope_chain h node ms" and "\<forall>m\<in>set ms. map_of (symbols (nodes h m)) a = None"
  shows "FindNestedSymbol node [a, b] h = Some (Ok None, h)"
  using FindSymbol_chain_absent [OF assms]
  by (simp add: FindNestedSymbol_def)

lemma analyzeDefaults_unknown_namespace:
  assumes "an_tokens (an s) = x # n # y # rest"
    and "tok_Op x = OpIdentifier" "tok_Op n = OpNamespace" "tok_Op y = OpIdentifier"
    and "scope_chain (hp s) node ms"
    and "\<forall>m\<in>set ms. map_of (symbols (nodes (hp s) m)) (tok_Value x) = None"
  shows "analyzeDefaults E node s = Some (Panic NilDefault, s\<lparr>an := (an s)\<lparr>an_tokens := rest\<rparr>\<rparr>)"
  using getNamespacedIdentifier_pair [OF assms(1-4)]
    FindNestedSymbol_unknown_first [OF assms(5,6), of "tok_Value y"]
  by (subst analyzeDefaults.simps)
     (simp add: abind_def with_tokens_def with_heap_def tokenStringValues_def ValueString_def
        AddDefault_def)

lemma optionalToken_match:
  "an_tokens a = t2 # rest \<Longrightarrow> Token_Equal E t t2 \<Longrightarrow>
   optionalToken E t a = (Ok (Some t2), a\<lparr>an_tokens := rest\<rparr>)"
  by (simp add: optionalToken_eq)

lemma optionalToken_no_match:
  "an_tokens a = [] \<or> \<not> Token_Equal E t (hd (an_tokens a)) \<Longrightarrow>
   optionalToken E t a = (Ok None, a)"
  by (cases "an_tokens a") (auto simp: optionalToken_eq)

lemma unknown_namespace_declare:
  "map_option (\<lambda>(r, s). (r, an_tokens (an s),
       map (\<lambda>m. (parent (nodes (hp s) m), map_of (symbols (nodes (hp s) m)) ''E'')) [2, 1, 0]))
     (analyzeProperty_declare example_env (Suc 0)
        (class_scope_state [tok OpIdentifier ''y'' ''y'' 1 12, tok OpOperator ''='' ''='' 1 14,
           tok OpIdentifier ''E'' ''E'' 1 16, tok OpNamespace ''::'' ''::'' 1 18,
           tok OpIdentifier ''y'' ''y'' 1 19, tok OpTerminator '';'' '';'' 1 20]))
   = Some (Ok 2, [tok OpOperator ''='' ''='' 1 14,
           tok OpIdentifier ''E'' ''E'' 1 16, tok OpNamespace ''::'' ''::'' 1 18,
           tok OpIdentifier ''y'' ''y'' 1 19, tok OpTerminator '';'' '';'' 1 20],
        [(Some 1, None), (Some 0, None), (None, None)])"
  by (simp add: class_scope_state_def analyzer_defs heap_defs)

lemma unknown_namespace_run:
  "map_option fst (Analyze (Suc 0) example_env (initial_state src_unknown_namespace))
     = Some (Panic NilDefault)"
proof -
  have tokens: "Tokenize (NewTokenizer src_unknown_namespace) =
     Inr (tok OpIdentifier ''class'' ''class'' 1 6
          # [tok OpIdentifier ''M'' ''M'' 1 8, tok OpOperator ''{'' ''{'' 1 10,
             tok OpIdentifier ''y'' ''y'' 1 12, tok OpOperator ''='' ''='' 1 14,
             tok OpIdentifier ''E'' ''E'' 1 16, tok OpNamespace ''::'' ''::'' 1 18,
             tok OpIdentifier ''y'' ''y'' 1 19, tok OpTerminator '';'' '';'' 1 20,
             tok OpOperator ''}'' ''}'' 1 22, tok OpTerminator '';'' '';'' 1 23])"
    by (simp add: src_unknown_namespace_def tok_def lexer_defs Let_def)
  show ?thesis
    by (rule Analyze_initial_panic [OF tokens])
       (simp add: example_env_def analyzer_defs heap_defs Analyze_0)
qed

subsection \<open>Properties: what the declaration part establishes, and the default chain\<close>

lemma preservesI: "(\<And>s r s'. I s \<Longrightarrow> m s = Some (r, s') \<Longrightarrow> I s') \<Longrightarrow> preserves I m"
  unfolding preserves_def by blast

lemma preservesD: "preserves I m \<Longrightarrow> I s \<Longrightarrow> m s = Some (r, s') \<Longrightarrow> I s'"
  unfolding preserves_def by blast

lemma preserves_abind:
  assumes "preserves I m" and "\<And>x. preserves I (f x)"
  shows "preserves I (abind m f)"
proof (rule preservesI)
  fix s r s'
  assume I: "I s" and run: "abind m f s = Some (r, s')"
  then obtain r1 s1 where m: "m s = Some (r1, s1)"
    by (cases "m s") (auto simp: abind_def)
  from preservesD [OF assms(1) I m] have I1: "I s1" .
  show "I s'"
  proof (cases r1)
    case (Ok x)
    with run m have "f x s1 = Some (r, s')" by (simp add: abind_def)
    from preservesD [OF assms(2) I1 this] show ?thesis .
  next
    case (Err e)
    with run m I1 show ?thesis by (simp add: abind_def)
  next
    case (Panic p)
    with run m I1 show ?thesis by (simp add: abind_def)
  qed
qed

lemma preserves_areturn: "preserves I (areturn x)"
  by (simp add: preserves_def areturn_def)

lemma preserves_if: "preserves I a \<Longrightarrow> preserves I b \<Longrightarrow> preserves I (if c then a else b)"
  by simp

lemma preserves_with_tokens:
  assumes "\<And>s a. I s \<Longrightarrow> I (s\<lparr>an := a\<rparr>)"
  shows "preserves I (with_tokens f)"
proof (rule preservesI)
  fix s r s'
  assume "I s" and "with_tokens f s = Some (r, s')"
  then show "I s'"
    using assms [of s "snd (f (an s))"] by (cases "f (an s)") (simp add: with_tokens_def)
qed

lemma preserves_with_heap:
  assumes "\<And>s r h'. I s \<Longrightarrow> f (hp s) = Some (r, h') \<Longrightarrow> I (s\<lparr>hp := h'\<rparr>)"
  shows "preserves I (with_heap f)"
proof (rule preservesI)
  fix s r s'
  assume I: "I s" and run: "with_heap f s = Some (r, s')"
  then obtain r1 h1 where f: "f (hp s) = Some (r1, h1)"
    by (cases "f (hp s)") (auto simp: with_heap_def)
  with run have "s' = s\<lparr>hp := h1\<rparr>" by (simp add: with_heap_def)
  with assms [OF I f] show "I s'" by simp
qed

lemma preserves_update_obj:
  assumes "\<And>s. I s \<Longrightarrow> I (s\<lparr>objs := (objs s)(n := f (objs s n))\<rparr>)"
  shows "preserves I (update_obj n f)"
  using assms by (auto simp: preserves_def update_obj_def)

lemma preserves_property_names: "preserves I (property_names t1 t2 t3)"
  by (rule preservesI) (auto simp: property_names_def split: option.splits)

lemma preserves_baseNode_Symbol:
  assumes "\<And>s sy. I s \<Longrightarrow> I (s\<lparr>hp := snd (alloc_Symbol sy (hp s))\<rparr>)"
  shows "preserves I (baseNode_Symbol n)"
proof (rule preservesI)
  fix s r s'
  assume I: "I s" and run: "baseNode_Symbol n s = Some (r, s')"
  let ?sy = "\<lparr>sym_Value = concrete_Value (objs s n), sym_Scope = None,
              sym_Node = owner (nodes (hp s) n)\<rparr>"
  from run have "s' = s\<lparr>hp := snd (alloc_Symbol ?sy (hp s))\<rparr>"
    by (cases "alloc_Symbol ?sy (hp s)") (simp add: baseNode_Symbol_def)
  with assms [OF I, of ?sy] show "I s'" by simp
qed




text \<open>Lookups change no parent pointer.\<close>

lemma AddSymbol_parent: "parent (nodes (snd (AddSymbol n s h)) m) = parent (nodes h m)"
  by (auto simp: AddSymbol_def split: option.splits)

lemma CreateSymbol_parent: "parent (nodes (snd (CreateSymbol n v nd h)) m) = parent (nodes h m)"
proof -
  define h0 where "h0 = h\<lparr>syms := (syms h)(next_sym h := \<lparr>sym_Value = v, sym_Scope = None, sym_Node = nd\<rparr>),
         next_sym := Suc (next_sym h)\<rparr>"
  obtain r h2 where a: "AddSymbol n (Some (next_sym h)) h0 = (r, h2)" by fastforce
  have "parent (nodes h2 m) = parent (nodes h0 m)"
    using AddSymbol_parent [of n "Some (next_sym h)" h0 m] a by simp
  also have "\<dots> = parent (nodes h m)" by (simp add: h0_def)
  finally show ?thesis
    using a by (cases r) (simp_all add: CreateSymbol_def alloc_Symbol_def h0_def)
qed

lemma FindSymbol_parent:
  assumes "FindSymbol n v c h = Some y"
  shows "parent (nodes (snd y) m) = parent (nodes h m)"
proof (rule FindSymbol.raw_induct
    [where P = "\<lambda>n v c h y. parent (nodes (snd y) m) = parent (nodes h m)", OF _ assms], goal_cases)
  case (1 F n v c h y)
  show ?case
  proof (cases "map_of (symbols (nodes h n)) v")
    case (Some sp)
    with 1(2) show ?thesis by auto
  next
    case None
    with 1(2) obtain r h1 where
      up: "(case parent (nodes h n) of None \<Rightarrow> Some (Ok None, h) | Some p \<Rightarrow> F p v c h) = Some (r, h1)"
      and y: "(case r of
                 Ok (Some sp) \<Rightarrow> Some (Ok (Some sp), h1)
               | Ok None \<Rightarrow>
                   if c
                   then (case CreateSymbol n v (owner (nodes h1 n)) h1 of
                           (Ok sp, h2) \<Rightarrow> Some (Ok (Some sp), h2)
                         | (Err e, h2) \<Rightarrow> Some (Err e, h2)
                         | (Panic p, h2) \<Rightarrow> Some (Panic p, h2))
                   else Some (Ok None, h1)
               | Err e \<Rightarrow> Some (Err e, h1)
               | Panic p \<Rightarrow> Some (Panic p, h1)) = Some y"
      by (auto simp: Option.bind_eq_Some_conv)
    have h1: "parent (nodes h1 m) = parent (nodes h m)"
    proof (cases "parent (nodes h n)")
      case None
      with up show ?thesis by simp
    next
      case (Some p)
      with up have "F p v c h = Some (r, h1)" by simp
      from 1(1) [OF this] show ?thesis by simp
    qed
    from y have "snd y = h1 \<or> snd y = snd (CreateSymbol n v (owner (nodes h1 n)) h1)"
      by (auto split: result.splits option.splits if_splits prod.splits)
    with h1 show ?thesis by (auto simp: CreateSymbol_parent)
  qed
qed

lemma FindNestedSymbol_loop_parent:
  "FindNestedSymbol_loop cur path found h = Some y \<Longrightarrow> parent (nodes (snd y) m) = parent (nodes h m)"
proof (induction cur path found h arbitrary: y rule: FindNestedSymbol_loop.induct)
  case (1 cur found h)
  then show ?case by auto
next
  case (2 cur v rest found h)
  show ?case
  proof (cases cur)
    case None
    with 2(2) show ?thesis by auto
  next
    case (Some n)
    with 2(2) obtain r h1 where f: "FindSymbol n v (rest = []) h = Some (r, h1)"
      and y: "(case r of
                 Ok None \<Rightarrow> Some (Ok None, h1)
               | Ok (Some sp) \<Rightarrow>
                   FindNestedSymbol_loop
                     (case sym_Node (syms h1 sp) of Some nd \<Rightarrow> Some nd | None \<Rightarrow> sym_Scope (syms h1 sp))
                     rest (Some sp) h1
               | Err e \<Rightarrow> Some (Err e, h1)
               | Panic p \<Rightarrow> Some (Panic p, h1)) = Some y"
      by (auto simp: Option.bind_eq_Some_conv)
    from FindSymbol_parent [OF f] have h1: "parent (nodes h1 m) = parent (nodes h m)" by simp
    show ?thesis
    proof (cases r)
      case (Ok x)
      show ?thesis
      proof (cases x)
        case None
        with Ok y h1 show ?thesis by auto
      next
        case (Some sp)
        with Ok y have "FindNestedSymbol_loop
                     (case sym_Node (syms h1 sp) of Some nd \<Rightarrow> Some nd | None \<Rightarrow> sym_Scope (syms h1 sp))
                     rest (Some sp) h1 = Some y" by simp
        from "2.IH" [OF \<open>cur = Some n\<close> f refl Ok Some this] h1
        show ?thesis by simp
      qed
    qed (use y h1 in auto)
  qed
qed

lemma FindNestedSymbol_parent:
  "FindNestedSymbol n path h = Some (r, h') \<Longrightarrow> parent (nodes h' m) = parent (nodes h m)"
  using FindNestedSymbol_loop_parent [of "Some n" path None h "(r, h')" m]
  by (simp add: FindNestedSymbol_def)


lemma fresh_under_an: "fresh_under root node s \<Longrightarrow> fresh_under root node (s\<lparr>an := a\<rparr>)"
  by (simp add: fresh_under_def)

lemma fresh_under_objs: "fresh_under root node s \<Longrightarrow> fresh_under root node (s\<lparr>objs := ob\<rparr>)"
  by (simp add: fresh_under_def)


lemma getNamespacedIdentifier_ns_ident:
  assumes "ns_ident e" and "an_tokens a = e @ nxt"
    and "nxt = [] \<or> tok_Op (hd nxt) \<noteq> OpNamespace"
  shows "\<exists>ts. getNamespacedIdentifier a = (Ok ts, a\<lparr>an_tokens := nxt\<rparr>)
            \<and> tokenStringValues ts = ns_path e"
proof (cases e rule: ns_ident.cases)
  case (1 x)
  with assms show ?thesis
    using getNamespacedIdentifier_single [of a x nxt]
    by (auto simp: tokenStringValues_def ValueString_def)
next
  case (2 x n y)
  with assms show ?thesis
    using getNamespacedIdentifier_pair [of a x n y nxt]
    by (auto simp: tokenStringValues_def ValueString_def)
qed (use assms in auto)

lemma resolve_chain_Cons:
  "resolve_chain node (p # ps) h = Some (sps, h') \<Longrightarrow>
   \<exists>sp h1 sps'. FindNestedSymbol node p h = Some (Ok (Some sp), h1)
      \<and> resolve_chain node ps h1 = Some (sps', h') \<and> sps = sp # sps'"
  by (auto split: option.splits prod.splits result.splits)

lemma on_Property_append:
  "on_Property (\<lambda>p. p\<lparr>prp_Default := prp_Default p @ ys\<rparr>)
     (on_Property (\<lambda>p. p\<lparr>prp_Default := prp_Default p @ xs\<rparr>) c) =
   on_Property (\<lambda>p. p\<lparr>prp_Default := prp_Default p @ xs @ ys\<rparr>) c"
  by (cases c) simp_all

lemma Token_Equal_Op: "Token_Equal E t u \<Longrightarrow> tok_Op u = tok_Op t"
  by (simp add: Token_Equal_def)

lemma analyzeDefaults_chain:
  assumes "ns_ident e" and "chain_ok E bes"
    and "an_tokens (an s) = chain_tokens e bes @ rest"
    and "rest = [] \<or> (tok_Op (hd rest) \<noteq> OpNamespace \<and> \<not> Token_Equal E binaryOrToken (hd rest))"
    and "resolve_chain node (map ns_path (chain_elements e bes)) (hp s) = Some (sps, h')"
  shows "analyzeDefaults E node s =
     Some (Ok (), s\<lparr>an := (an s)\<lparr>an_tokens := rest\<rparr>, hp := h',
        objs := (objs s)(node := on_Property (\<lambda>p. p\<lparr>prp_Default := prp_Default p @ sps\<rparr>)
                                    (objs s node))\<rparr>)"
  using assms
proof (induction bes arbitrary: e s sps)
  case Nil
  from Nil.prems have e: "ns_ident e" and toks: "an_tokens (an s) = e @ rest" by simp_all
  from Nil.prems(4) have nxt: "rest = [] \<or> tok_Op (hd rest) \<noteq> OpNamespace" by blast
  from getNamespacedIdentifier_ns_ident [OF e toks nxt] obtain ts where
    ts: "getNamespacedIdentifier (an s) = (Ok ts, (an s)\<lparr>an_tokens := rest\<rparr>)"
      "tokenStringValues ts = ns_path e" by blast
  from Nil.prems(5) obtain sp where
    sp: "FindNestedSymbol node (ns_path e) (hp s) = Some (Ok (Some sp), h')" "sps = [sp]"
    by (auto simp: chain_elements_def split: option.splits prod.splits result.splits)
  have no: "optionalToken E binaryOrToken ((an s)\<lparr>an_tokens := rest\<rparr>) = (Ok None, (an s)\<lparr>an_tokens := rest\<rparr>)"
    using Nil.prems(4) by (intro optionalToken_no_match) auto
  show ?case
    using ts sp no
    by (subst analyzeDefaults.simps)
       (simp add: abind_def with_tokens_def with_heap_def AddDefault_def update_obj_def areturn_def)
next
  case (Cons be bes)
  obtain bar e' where be: "be = (bar, e')" by (cases be)
  from Cons.prems be have e: "ns_ident e" and bar: "Token_Equal E binaryOrToken bar"
    and e': "ns_ident e'" and ok: "chain_ok E bes"
    and toks: "an_tokens (an s) = e @ (bar # chain_tokens e' bes @ rest)"
    by simp_all
  have bar_op: "tok_Op bar = OpOperator"
    using Token_Equal_Op [OF bar] by (simp add: binaryOrToken_def token_lit_def)
  then have nxt: "bar # chain_tokens e' bes @ rest = []
      \<or> tok_Op (hd (bar # chain_tokens e' bes @ rest)) \<noteq> OpNamespace"
    by simp
  from getNamespacedIdentifier_ns_ident [OF e toks nxt] obtain ts where
    ts: "getNamespacedIdentifier (an s) =
        (Ok ts, (an s)\<lparr>an_tokens := bar # chain_tokens e' bes @ rest\<rparr>)"
      "tokenStringValues ts = ns_path e" by blast
  from Cons.prems(5) be obtain sp h1 sps' where
    sp: "FindNestedSymbol node (ns_path e) (hp s) = Some (Ok (Some sp), h1)"
    and later: "resolve_chain node (map ns_path (chain_elements e' bes)) h1 = Some (sps', h')"
    and sps: "sps = sp # sps'"
    using resolve_chain_Cons [of node "ns_path e" "map ns_path (chain_elements e' bes)" "hp s" sps h']
    by (auto simp: chain_elements_def)
  let ?s2 = "s\<lparr>hp := h1,
        objs := (objs s)(node := on_Property (\<lambda>p. p\<lparr>prp_Default := prp_Default p @ [sp]\<rparr>)
                                    (objs s node)),
        an := (an s)\<lparr>an_tokens := chain_tokens e' bes @ rest\<rparr>\<rparr>"
  have yes: "optionalToken E binaryOrToken ((an s)\<lparr>an_tokens := bar # chain_tokens e' bes @ rest\<rparr>)
      = (Ok (Some bar), (an s)\<lparr>an_tokens := chain_tokens e' bes @ rest\<rparr>)"
    using optionalToken_match [of "(an s)\<lparr>an_tokens := bar # chain_tokens e' bes @ rest\<rparr>"
        bar "chain_tokens e' bes @ rest" E binaryOrToken] bar
    by simp
  have step: "analyzeDefaults E node s = analyzeDefaults E node ?s2"
    using ts sp yes
    by (subst analyzeDefaults.simps)
       (simp add: abind_def with_tokens_def with_heap_def AddDefault_def update_obj_def)
  have "analyzeDefaults E node ?s2 =
     Some (Ok (), ?s2\<lparr>an := (an ?s2)\<lparr>an_tokens := rest\<rparr>, hp := h',
        objs := (objs ?s2)(node := on_Property (\<lambda>p. p\<lparr>prp_Default := prp_Default p @ sps'\<rparr>)
                                    (objs ?s2 node))\<rparr>)"
    by (rule Cons.IH) (use e' ok Cons.prems(4) later in simp_all)
  also have "?s2\<lparr>an := (an ?s2)\<lparr>an_tokens := rest\<rparr>, hp := h',
        objs := (objs ?s2)(node := on_Property (\<lambda>p. p\<lparr>prp_Default := prp_Default p @ sps'\<rparr>)
                                    (objs ?s2 node))\<rparr> =
      s\<lparr>an := (an s)\<lparr>an_tokens := rest\<rparr>, hp := h',
        objs := (objs s)(node := on_Property (\<lambda>p. p\<lparr>prp_Default := prp_Default p @ sps\<rparr>)
                                    (objs s node))\<rparr>"
    by (simp add: on_Property_append sps)
  finally show ?case
    by (simp only: step)
qed

lemma returns_abind: "(\<And>x. returns Q (f x)) \<Longrightarrow> returns Q (abind m f)"
  unfolding returns_def abind_def
  by (auto split: option.splits result.splits)

lemma returns_areturn: "Q x \<Longrightarrow> returns Q (areturn x)"
  by (simp add: returns_def areturn_def)

lemma NewPropertyNode_declared:
  "NewPropertyNode (Some root) s = Some (r, s0) \<Longrightarrow> \<exists>node. r = Ok node \<and> declared root node s0"
  by (auto simp: NewPropertyNode_def newNode_def AddChild_def SetParent_def Let_def declared_def)

lemma declared_with_tokens: "preserves (declared root node) (with_tokens f)"
  by (rule preserves_with_tokens) (simp add: declared_def)

lemma declared_set_Value: "preserves (declared root node) (update_obj node (set_Value v))"
  by (rule preserves_update_obj) (auto simp: declared_def)

lemma declared_on_Property:
  "(\<And>p. prp_Default (f p) = prp_Default p) \<Longrightarrow>
   preserves (declared root node) (update_obj node (on_Property f))"
  by (rule preserves_update_obj) (auto simp: declared_def)

lemma declared_FindNestedSymbol:
  "preserves (declared root node) (with_heap (FindNestedSymbol n path))"
proof (rule preserves_with_heap)
  fix s r h'
  assume "declared root node s" and "FindNestedSymbol n path (hp s) = Some (r, h')"
  then show "declared root node (s\<lparr>hp := h'\<rparr>)"
    using FindNestedSymbol_parent [of n path "hp s" r h' node] by (simp add: declared_def)
qed

lemma declared_FindSymbol:
  "preserves (declared root node) (with_heap (FindSymbol n v c))"
proof (rule preserves_with_heap)
  fix s r h'
  assume "declared root node s" and "FindSymbol n v c (hp s) = Some (r, h')"
  then show "declared root node (s\<lparr>hp := h'\<rparr>)"
    using FindSymbol_parent [of n v c "hp s" "(r, h')" node] by (simp add: declared_def)
qed

lemma declared_AddSymbol:
  "preserves (declared root node) (with_heap (\<lambda>h. Some (AddSymbol n sp h)))"
proof (rule preserves_with_heap)
  fix s r h'
  assume "declared root node s" and "Some (AddSymbol n sp (hp s)) = Some (r, h')"
  then show "declared root node (s\<lparr>hp := h'\<rparr>)"
    using AddSymbol_parent [of n sp "hp s" node] by (simp add: declared_def)
qed

lemma declared_baseNode_Symbol: "preserves (declared root node) (baseNode_Symbol n)"
  by (rule preserves_baseNode_Symbol) (simp add: declared_def alloc_Symbol_def)

lemmas declared_intros = preserves_abind preserves_if preserves_areturn preserves_property_names
  declared_with_tokens declared_set_Value declared_on_Property declared_FindNestedSymbol
  declared_FindSymbol declared_AddSymbol declared_baseNode_Symbol

lemma abind_post:
  assumes "abind m f s = Some (Ok y, s1)"
    and "\<And>r s0. m s = Some (r, s0) \<Longrightarrow> \<exists>x. r = Ok x \<and> I x s0"
    and "\<And>x. preserves (I x) (f x)"
    and "\<And>x. returns (\<lambda>y. y = x) (f x)"
  shows "I y s1"
proof -
  from assms(1) obtain r s0 where m: "m s = Some (r, s0)"
    by (cases "m s") (auto simp: abind_def)
  from assms(2) [OF m] obtain x where x: "r = Ok x" "I x s0" by blast
  with assms(1) m have run: "f x s0 = Some (Ok y, s1)" by (simp add: abind_def)
  with assms(4) [of x] have "y = x" by (auto simp: returns_def)
  with preservesD [OF assms(3) x(2) run] show ?thesis by simp
qed

lemma analyzeProperty_declare_declared:
  assumes "analyzeProperty_declare E root s = Some (Ok node, s1)"
  shows "declared root node s1"
  using assms unfolding analyzeProperty_declare_def
proof (rule abind_post)
  show "\<And>r s0. NewPropertyNode (Some root) s = Some (r, s0) \<Longrightarrow> \<exists>x. r = Ok x \<and> declared root x s0"
    by (rule NewPropertyNode_declared)
qed (intro declared_intros returns_abind returns_areturn; simp)+


text \<open>The examples: the lexer on the two sources, the declaration part of the property
  with the default chain, and the whole analysis of its source.\<close>

lemma src_default_chain_tokens:
  "Tokenize (NewTokenizer src_default_chain) =
     Inr ([tok OpIdentifier ''enum'' ''enum'' 1 5, tok OpIdentifier ''MyEnum2'' ''MyEnum2'' 1 13,
           tok OpOperator ''{'' ''{'' 1 15, tok OpIdentifier ''y'' ''y'' 1 17,
           tok OpTerminator '';'' '';'' 1 18, tok OpOperator ''}'' ''}'' 1 20,
           tok OpTerminator '';'' '';'' 1 21, tok OpIdentifier ''class'' ''class'' 1 27,
           tok OpIdentifier ''M'' ''M'' 1 29, tok OpOperator ''{'' ''{'' 1 31,
           tok OpIdentifier ''C'' ''C'' 1 33, tok OpTerminator '';'' '';'' 1 34]
          @ default_chain_tokens)"
  by (simp add: src_default_chain_def default_chain_tokens_def tok_def lexer_defs Let_def)


lemma default_chain_declare:
  "map_option (\<lambda>(r, s). (r, an_tokens (an s),
       map (\<lambda>m. parent (nodes (hp s) m)) [5, 3, 1, 0],
       map (\<lambda>(m, v). map_of (symbols (nodes (hp s) m)) v)
         [(5, ''C''), (3, ''C''), (5, ''MyEnum2''), (3, ''MyEnum2''), (0, ''MyEnum2''), (1, ''y'')],
       sym_Node (syms (hp s) 0)))
     (analyzeProperty_declare example_env 3 (enum_class_state default_chain_tokens))
   = Some (Ok 5, drop 1 default_chain_tokens,
        [Some 3, Some 0, Some 0, None], [None, Some 3, None, None, Some 0, Some 1], Some 1)"
  by (simp add: enum_class_state_def default_chain_tokens_def analyzer_defs heap_defs)

lemma default_chain_run:
  "map_option (\<lambda>(r, s). (r, map_option prp_Default (the_Property (objs s 5)),
       map (\<lambda>sp. (sym_Value (syms (hp s) sp), sym_Scope (syms (hp s) sp))) [3, 1]))
     (Analyze (Suc 0) example_env (initial_state src_default_chain))
   = Some (Ok (Some 0, None), Some [3, 1, 3], [(''C'', Some 3), (''y'', Some 1)])"
proof -
  have "map_option (\<lambda>(r, s). (r, map_option prp_Default (the_Property (objs s 5)),
       map (\<lambda>sp. (sym_Value (syms (hp s) sp), sym_Scope (syms (hp s) sp))) [3, 1]))
     (Analyze (Suc 0) example_env (initial_state src_default_chain))
   = (case Ok () :: unit result of
        Ok _ \<Rightarrow> Some (Ok (Some 0, None), Some [3, 1, 3], [(''C'', Some 3), (''y'', Some 1)])
      | Err e \<Rightarrow> Some (Ok (Some 0, Some e), Some [3, 1, 3], [(''C'', Some 3), (''y'', Some 1)])
      | Panic p \<Rightarrow> Some (Panic p, Some [3, 1, 3], [(''C'', Some 3), (''y'', Some 1)]))"
    by (rule Analyze_initial_result [OF src_default_chain_tokens [unfolded default_chain_tokens_def append.simps]])
       (simp add: example_env_def analyzer_defs heap_defs Analyze_0)
  then show ?thesis by simp
qed















subsection \<open>The lexer: the identifier branch and the column counter\<close>

lemma ident_first_facts:
  "ident_first c \<Longrightarrow> \<not> is_space c \<and> c \<noteq> CHR '';'' \<and> c \<noteq> CHR 0x22 \<and> c \<noteq> CHR ''/'' \<and> c \<noteq> CHR ''-''"
  by (auto simp: ident_first_def is_letter_def is_digit_def is_space_def)

lemma minus_facts: "\<not> is_space (CHR ''-'')" "\<not> ident_first (CHR ''-'')"
  by (simp_all add: is_space_def ident_first_def is_letter_def is_digit_def)

lemma takeWhile_all_append:
  "list_all P xs \<Longrightarrow> ys = [] \<or> \<not> P (hd ys) \<Longrightarrow> takeWhile P (xs @ ys) = xs"
  by (induction xs) (cases ys; auto)+

lemma list_all_takeWhile: "list_all P (takeWhile P xs)"
  by (induction xs) auto

lemma takeWhile_stops:
  "drop (length (takeWhile P xs)) xs = [] \<or> \<not> P (hd (drop (length (takeWhile P xs)) xs))"
  by (induction xs) auto

lemma take_takeWhile: "take (length (takeWhile P xs)) xs = takeWhile P xs"
  by (induction xs) auto

text \<open>A match of the identifier branch has the shape, is captured whole, and is not
  followed by a character of the second class.\<close>

lemma pattern_at_identifier:
  assumes "fst (pattern_at bs) = OpIdentifier"
  shows "ident_shape (take (fst (snd (pattern_at bs))) bs)"
    and "snd (snd (pattern_at bs)) = (0, fst (snd (pattern_at bs)))"
    and "drop (fst (snd (pattern_at bs))) bs = []
         \<or> \<not> ident_rest (hd (drop (fst (snd (pattern_at bs))) bs))"
proof -
  from assms obtain c cs where bs: "bs = c # cs" by (cases bs) auto
  consider (plain) "ident_first c" | (minus) "c = CHR ''-''" "cs \<noteq> []" "ident_first (hd cs)"
    using assms bs by (auto simp: Let_def split: if_splits)
  then have "ident_shape (take (fst (snd (pattern_at bs))) bs)
      \<and> snd (snd (pattern_at bs)) = (0, fst (snd (pattern_at bs)))
      \<and> (drop (fst (snd (pattern_at bs))) bs = []
         \<or> \<not> ident_rest (hd (drop (fst (snd (pattern_at bs))) bs)))"
  proof cases
    case plain
    then show ?thesis
      using ident_first_facts [OF plain] takeWhile_stops [of ident_rest cs]
      by (simp add: bs Let_def take_takeWhile list_all_takeWhile)
  next
    case minus
    then obtain d ds where cs: "cs = d # ds" by (cases cs) auto
    with minus show ?thesis
      using minus_facts takeWhile_stops [of ident_rest ds]
      by (simp add: bs Let_def take_takeWhile list_all_takeWhile)
  qed
  then show "ident_shape (take (fst (snd (pattern_at bs))) bs)"
    and "snd (snd (pattern_at bs)) = (0, fst (snd (pattern_at bs)))"
    and "drop (fst (snd (pattern_at bs))) bs = []
         \<or> \<not> ident_rest (hd (drop (fst (snd (pattern_at bs))) bs))"
    by simp_all
qed

text \<open>Where a span of the shape starts a match and is not followed by a character of the
  second class, the match is the span, by the identifier branch.\<close>

lemma pattern_at_ident_shape:
  assumes "ident_shape w" and "rest = [] \<or> \<not> ident_rest (hd rest)"
  shows "pattern_at (w @ rest) = (OpIdentifier, length w, 0, length w)"
proof -
  from assms(1) obtain c cs where w: "w = c # cs" by (cases w) auto
  show ?thesis
  proof (cases "c = CHR ''-''")
    case True
    with assms(1) w obtain d ds where cs: "cs = d # ds" and d: "ident_first d" "list_all ident_rest ds"
      by (cases cs) auto
    show ?thesis
      using True minus_facts d takeWhile_all_append [OF d(2) assms(2)]
      by (simp add: w cs Let_def)
  next
    case False
    with assms(1) w have c: "ident_first c" "list_all ident_rest cs" by auto
    show ?thesis
      using ident_first_facts [OF c(1)] c takeWhile_all_append [OF c(2) assms(2)]
      by (simp add: w Let_def)
  qed
qed

text \<open>Every match of \<^verbatim>\<open>FindAllSubmatchIndex\<close> is the match of the pattern at its
  start.\<close>

lemma FindAllSubmatchIndex_from_match:
  "m \<in> set (FindAllSubmatchIndex_from data pos) \<Longrightarrow>
   mi_group m = fst (pattern_at (drop (mi_start m) data))
   \<and> mi_end m = mi_start m + fst (snd (pattern_at (drop (mi_start m) data)))
   \<and> mi_cap_start m = mi_start m + fst (snd (snd (pattern_at (drop (mi_start m) data))))
   \<and> mi_cap_end m = mi_cap_start m + snd (snd (snd (pattern_at (drop (mi_start m) data))))"
proof (induction data pos rule: FindAllSubmatchIndex_from.induct)
  case (1 data pos)
  from "1.prems" have lt: "pos < length data"
    by (subst (asm) FindAllSubmatchIndex_from.simps) (auto split: if_splits)
  from "1.prems" lt consider
    (here) "m = \<lparr>mi_start = pos, mi_end = pos + fst (snd (pattern_at (drop pos data))),
              mi_group = fst (pattern_at (drop pos data)),
              mi_cap_start = pos + fst (snd (snd (pattern_at (drop pos data)))),
              mi_cap_end = pos + fst (snd (snd (pattern_at (drop pos data))))
                 + snd (snd (snd (pattern_at (drop pos data))))\<rparr>"
  | (later) "m \<in> set (FindAllSubmatchIndex_from data (pos + fst (snd (pattern_at (drop pos data)))))"
    by (subst (asm) FindAllSubmatchIndex_from.simps) (auto simp: Let_def)
  then show ?case
  proof cases
    case here
    then show ?thesis by simp
  next
    case later
    from "1.IH" [OF lt refl later] show ?thesis .
  qed
qed

text \<open>Every token of the queue comes from a match: its group, the matched text and the
  captured text.\<close>

lemma tokenize_loop_token:
  "tokenize_loop data ms row col q = Inr ts \<Longrightarrow> t \<in> set ts \<Longrightarrow>
   t \<in> set q \<or> (\<exists>m\<in>set ms. tok_Op t = mi_group m
       \<and> tok_Raw t = slice data (mi_start m) (mi_end m)
       \<and> tok_Value t = slice data (mi_cap_start m) (mi_cap_end m))"
proof (induction ms arbitrary: row col q)
  case Nil
  then show ?case by simp
next
  case (Cons m ms)
  from Cons.prems(1) obtain rows cols where
    cr: "countRunes (slice data (mi_start m) (mi_end m)) = Inr (rows, cols)"
    by (cases "countRunes (slice data (mi_start m) (mi_end m))") (auto simp: Let_def)
  let ?row = "row + rows" and ?col = "if rows > 0 then cols else col + cols"
  let ?t = "\<lparr>tok_Op = mi_group m, tok_Name = OpCode_String (mi_group m),
      tok_Value = slice data (mi_cap_start m) (mi_cap_end m),
      tok_Raw = slice data (mi_start m) (mi_end m), tok_Row = ?row, tok_Col = ?col,
      tok_Error = None\<rparr>"
  show ?case
  proof (cases "mi_group m = OpComment \<or> mi_group m = OpWhitespace")
    case True
    with Cons.prems(1) cr have "tokenize_loop data ms ?row ?col q = Inr ts"
      by (simp add: Let_def)
    from Cons.IH [OF this Cons.prems(2)] show ?thesis by auto
  next
    case False
    with Cons.prems(1) cr have "tokenize_loop data ms ?row ?col (q @ [?t]) = Inr ts"
      by (simp add: Let_def)
    from Cons.IH [OF this Cons.prems(2)] show ?thesis by auto
  qed
qed


lemma FindAllSubmatchIndex_first:
  assumes "ident_shape w" and "rest = [] \<or> \<not> ident_rest (hd rest)"
  shows "FindAllSubmatchIndex (w @ rest) =
      \<lparr>mi_start = 0, mi_end = length w, mi_group = OpIdentifier, mi_cap_start = 0,
        mi_cap_end = length w\<rparr> # FindAllSubmatchIndex_from (w @ rest) (length w)"
proof -
  from assms(1) have "w \<noteq> []" by auto
  then show ?thesis
    unfolding FindAllSubmatchIndex_def
    by (subst FindAllSubmatchIndex_from.simps) (simp add: pattern_at_ident_shape [OF assms])
qed

lemma countRunes_from_ascii:
  "list_all (\<lambda>c. (of_char c :: nat) < 0x80 \<and> (of_char c :: nat) \<noteq> 0x0A) (drop pos data) \<Longrightarrow>
   countRunes_from data pos rows cols = Inr (rows, cols + int (length data - pos))"
proof (induction data pos rows cols rule: countRunes_from.induct)
  case (1 data pos rows cols)
  show ?case
  proof (cases "pos < length data")
    case False
    then show ?thesis by (subst countRunes_from.simps) simp
  next
    case True
    then have d: "drop pos data = data ! pos # drop (Suc pos) data"
      by (simp add: Cons_nth_drop_Suc)
    with "1.prems" have c: "(of_char (data ! pos) :: nat) < 0x80" "(of_char (data ! pos) :: nat) \<noteq> 0x0A"
      and rest: "list_all (\<lambda>c. (of_char c :: nat) < 0x80 \<and> (of_char c :: nat) \<noteq> 0x0A)
                   (drop (pos + 1) data)"
      by simp_all
    have dec: "DecodeRune (drop pos data) = (of_char (data ! pos), 1)"
      using c by (simp add: d)
    have "countRunes_from data (pos + 1) rows (cols + 1) =
        Inr (rows, cols + 1 + int (length data - (pos + 1)))"
      using "1.IH"(2) [OF True refl refl _ _ ] c dec rest by (simp add: RuneError_def)
    then show ?thesis
      using True c dec by (subst countRunes_from.simps) (simp add: RuneError_def Let_def)
  qed
qed

lemma ident_rest_ascii: "ident_rest c \<Longrightarrow> (of_char c :: nat) < 0x80 \<and> (of_char c :: nat) \<noteq> 0x0A"
  by (auto simp: ident_rest_def is_letter_def is_digit_def)

lemma ident_first_rest: "ident_first c \<Longrightarrow> ident_rest c"
  by (auto simp: ident_first_def ident_rest_def)

lemma ident_shape_ascii:
  "ident_shape w \<Longrightarrow> list_all (\<lambda>c. (of_char c :: nat) < 0x80 \<and> (of_char c :: nat) \<noteq> 0x0A) w"
proof (cases w)
  case Nil
  then show "ident_shape w \<Longrightarrow> ?thesis" by simp
next
  case (Cons c cs)
  assume s: "ident_shape w"
  have all: "\<And>xs. list_all ident_rest xs \<Longrightarrow>
      list_all (\<lambda>c. (of_char c :: nat) < 0x80 \<and> (of_char c :: nat) \<noteq> 0x0A) xs"
    by (simp add: list_all_iff ident_rest_ascii)
  show ?thesis
  proof (cases "c = CHR ''-''")
    case True
    with s Cons obtain d ds where "cs = d # ds" "ident_first d" "list_all ident_rest ds"
      by (cases cs) auto
    with True Cons all [of "d # ds"] show ?thesis by (simp add: ident_first_rest)
  next
    case False
    with s Cons all [of "c # cs"] show ?thesis by (simp add: ident_first_rest)
  qed
qed

text \<open>An identifier that is the whole input starts at column 1 and is reported at column
  1 plus its length.\<close>

lemma lone_identifier_token:
  assumes "ident_shape w"
  shows "Tokenize (NewTokenizer w) = Inr [tok OpIdentifier w w 1 (1 + int (length w))]"
proof -
  from assms have ne: "w \<noteq> []" by auto
  have "FindAllSubmatchIndex_from w (length w) = []"
    by (subst FindAllSubmatchIndex_from.simps) simp
  with FindAllSubmatchIndex_first [OF assms, of "[]"] have ms: "FindAllSubmatchIndex w =
      [\<lparr>mi_start = 0, mi_end = length w, mi_group = OpIdentifier, mi_cap_start = 0,
        mi_cap_end = length w\<rparr>]" by simp
  have count: "countRunes w = Inr (0, int (length w))"
    using countRunes_from_ascii [of 0 w 0 0] ident_shape_ascii [OF assms]
    by (simp add: countRunes_def)
  show ?thesis
    using ne by (simp add: Tokenize_def NewTokenizer_def ms slice_def count tok_def)
qed

section \<open>The claims\<close>

text \<open>C6: \<open>AddSymbol\<close> panics exactly when the symbol is nil, its name is empty, or
  the name is already in the table of the node itself; the tables of the ancestors are
  not consulted. When it does not panic, the table of the node maps the name to the
  symbol and the symbol's scope is the node.\<close>

theorem AddSymbol_panics_iff:
  "((\<exists>p. fst (AddSymbol n s h) = Panic p) \<longleftrightarrow>
      (s = None \<or> (\<exists>sp. s = Some sp \<and> (sym_Value (syms h sp) = []
          \<or> map_of (symbols (nodes h n)) (sym_Value (syms h sp)) \<noteq> None))))
   \<and> (\<forall>sp. s = Some sp \<and> sym_Value (syms h sp) \<noteq> []
          \<and> map_of (symbols (nodes h n)) (sym_Value (syms h sp)) = None \<longrightarrow>
        (let h' = snd (AddSymbol n s h) in
           fst (AddSymbol n s h) = Ok ()
         \<and> map_of (symbols (nodes h' n)) (sym_Value (syms h sp)) = Some sp
         \<and> sym_Scope (syms h' sp) = Some n
         \<and> sym_Value (syms h' sp) = sym_Value (syms h sp)))"
  by (cases s) (auto simp: AddSymbol_def Let_def map_add_def)

theorem AddSymbol_panics_iff_witness:
  "fst (AddSymbol 1 (Some 1) shadow_heap) = Ok ()
   \<and> map_of (symbols (nodes (snd (AddSymbol 1 (Some 1) shadow_heap)) 1)) ''A'' = Some 1
   \<and> sym_Scope (syms (snd (AddSymbol 1 (Some 1) shadow_heap)) 1) = Some 1
   \<and> (\<exists>p. fst (AddSymbol 0 (Some 1) shadow_heap) = Panic p)
   \<and> parent (nodes shadow_heap 1) = Some 0
   \<and> map_of (symbols (nodes shadow_heap 0)) ''A'' = Some 0"
  using AddSymbol_panics_iff [of 1 "Some 1" shadow_heap]
    AddSymbol_panics_iff [of 0 "Some 1" shadow_heap] shadow_heap_facts
  by (simp add: Let_def)

text \<open>C1, as stated, fails: \<^verbatim>\<open>FindSymbol\<close> passes \<^verbatim>\<open>create\<close> on to the parent, so the
  search that began in node 1 (a child of the root, node 0) declares the missing name in
  the table of the root and leaves the table of node 1 empty.\<close>

theorem FindSymbol_create_counterexample:
  "FindSymbol 1 ''x'' True shadow_heap \<noteq> None
   \<and> fst (the (FindSymbol 1 ''x'' True shadow_heap)) = Ok (Some 2)
   \<and> map_of (symbols (nodes (snd (the (FindSymbol 1 ''x'' True shadow_heap))) 1)) ''x'' = None
   \<and> map_of (symbols (nodes (snd (the (FindSymbol 1 ''x'' True shadow_heap))) 0)) ''x'' = Some 2"
  using FindSymbol_chain_create [OF shadow_heap_chain, of "''x''"]
  by (simp add: shadow_heap_tables CreateSymbol_fresh)

text \<open>C1, amended: when the parent pointers above \<open>N\<close> end in a node without parent (the
  chain \<open>ms\<close> from \<open>N\<close> to that topmost node), the name is not empty and no table on the
  chain has it, \<^verbatim>\<open>FindSymbol(v, true)\<close> returns a fresh symbol that is declared in the
  table of the topmost node \<open>last ms\<close> (which is \<open>N\<close> only when \<open>N\<close> has no parent); its
  scope is that node, its tree-node target is the owner of that node (none for a root made
  by \<^verbatim>\<open>NewNode\<close>), and the table of every other node is unchanged.\<close>

theorem FindSymbol_create_at_top:
  assumes "scope_chain h n ms"
    and "\<forall>m\<in>set ms. map_of (symbols (nodes h m)) v = None"
    and "v \<noteq> []"
  shows "\<exists>h'. FindSymbol n v True h = Some (Ok (Some (next_sym h)), h')
           \<and> map_of (symbols (nodes h' (last ms))) v = Some (next_sym h)
           \<and> syms h' (next_sym h) =
               \<lparr>sym_Value = v, sym_Scope = Some (last ms), sym_Node = owner (nodes h (last ms))\<rparr>
           \<and> (\<forall>m. m \<noteq> last ms \<longrightarrow> symbols (nodes h' m) = symbols (nodes h m))"
proof -
  from assms(1) have "ms \<noteq> []" by (cases rule: scope_chain.cases) auto
  then have "last ms \<in> set ms" by simp
  with assms(2) have absent: "map_of (symbols (nodes h (last ms))) v = None" by blast
  show ?thesis
    using FindSymbol_chain_create [OF assms] CreateSymbol_fresh [OF assms(3) absent]
    by (simp add: map_add_def absent)
qed

theorem FindSymbol_create_at_top_witness:
  "\<exists>h'. FindSymbol 1 ''x'' True shadow_heap = Some (Ok (Some 2), h')
         \<and> map_of (symbols (nodes h' 0)) ''x'' = Some 2
         \<and> syms h' 2 = \<lparr>sym_Value = ''x'', sym_Scope = Some 0, sym_Node = None\<rparr>
         \<and> symbols (nodes h' 1) = []"
  using FindSymbol_create_at_top [OF shadow_heap_chain, of "''x''"]
  by (fastforce simp: shadow_heap_tables)

text \<open>C2, as stated, fails in its last sentence: when the import comes first and the
  class is declared at top level afterwards, the name is already in the table of the root
  and \<^verbatim>\<open>analyzeClass\<close> calls \<^verbatim>\<open>AddSymbol\<close> outside any \<^verbatim>\<open>recover\<close>: the
  analysis ends in a panic.\<close>

theorem import_then_class_panics:
  "map_option fst (Analyze (Suc (Suc 0)) example_env (initial_state src_import_first))
     = Some (Panic (ExistingSymbol ''A''))"
proof -
  have tokens: "Tokenize (NewTokenizer src_import_first) =
     Inr (tok OpPreprocess ''import'' ''#import'' 1 8
          # [tok OpString ''b'' [CHR 0x22, CHR ''b'', CHR 0x22] 1 12,
             tok OpIdentifier ''class'' ''class'' 1 18, tok OpIdentifier ''A'' ''A'' 1 20,
             tok OpOperator ''{'' ''{'' 1 22, tok OpOperator ''}'' ''}'' 1 24,
             tok OpTerminator '';'' '';'' 1 25])"
    by (simp add: src_import_first_def tok_def lexer_defs Let_def)
  show ?thesis
    by (rule Analyze_initial_panic [OF tokens])
       (simp add: example_env_def analyzer_defs heap_defs Analyze_0 Analyze_Suc src_b_tokens)
qed

text \<open>C2, amended: for every node \<open>N\<close> and every enumeration \<open>ss\<close> of the symbols of
  \<open>other\<close> (a table as \<^verbatim>\<open>AddSymbol\<close> builds it), \<^verbatim>\<open>ImportSymbols\<close> returns (its
  panics are recovered one by one), every name \<open>N\<close> had keeps its symbol, every symbol of
  \<open>other\<close> whose name \<open>N\<close> did not have is added under its name, and the resulting
  table does not depend on the enumeration. In particular \<^verbatim>\<open>importFile\<close> returns without
  error once the imported file is read and analysed without error, whatever names its root
  shares with the importing root; it is the declaration of a class at top level after an
  import of the same name that fails.\<close>

theorem ImportSymbols_first_wins:
  assumes "table_ok h other" and "set ss = set (Symbols other h)" and "distinct ss"
  shows "(\<forall>v s0. map_of (symbols (nodes h n)) v = Some s0 \<longrightarrow>
            map_of (symbols (nodes (ImportSymbols_loop n ss h) n)) v = Some s0)
       \<and> (\<forall>sp\<in>set (Symbols other h). map_of (symbols (nodes h n)) (sym_Value (syms h sp)) = None \<longrightarrow>
            map_of (symbols (nodes (ImportSymbols_loop n ss h) n)) (sym_Value (syms h sp)) = Some sp)
       \<and> map_of (symbols (nodes (ImportSymbols n other h) n)) =
            map_of (symbols (nodes (ImportSymbols_loop n ss h) n))
       \<and> (\<forall>(imp :: analysis) (E :: env) f root (s :: astate) data r s1.
            ReadFile E (FilepathJoin E (if an_filename (an s) \<noteq> [] then FilepathDir E (an_filename (an s)) else []) f) = Some data
            \<and> imp (s\<lparr>an := NewAnalyzer (Some (NewTokenizer data))
                (FilepathJoin E (if an_filename (an s) \<noteq> [] then FilepathDir E (an_filename (an s)) else []) f)\<rparr>)
                = Some (Ok (Some r, None), s1) \<longrightarrow>
            importFile imp E f root s =
              Some (Ok (), s1\<lparr>an := an s, hp := ImportSymbols root r (AdoptChildren root r (hp s1))\<rparr>))"
proof (intro conjI ballI allI impI)
  fix v s0
  assume "map_of (symbols (nodes h n)) v = Some s0"
  then show "map_of (symbols (nodes (ImportSymbols_loop n ss h) n)) v = Some s0"
    by (rule ImportSymbols_loop_keeps)
next
  fix sp
  assume "sp \<in> set (Symbols other h)"
    and "map_of (symbols (nodes h n)) (sym_Value (syms h sp)) = None"
  then show "map_of (symbols (nodes (ImportSymbols_loop n ss h) n)) (sym_Value (syms h sp)) = Some sp"
    by (rule ImportSymbols_loop_adds [OF assms])
next
  show "map_of (symbols (nodes (ImportSymbols n other h) n)) =
        map_of (symbols (nodes (ImportSymbols_loop n ss h) n))"
    by (rule ImportSymbols_order [OF assms, symmetric])
next
  fix imp :: analysis and E :: env and f root and s :: astate and data r s1
  assume "ReadFile E (FilepathJoin E (if an_filename (an s) \<noteq> [] then FilepathDir E (an_filename (an s)) else []) f) = Some data
            \<and> imp (s\<lparr>an := NewAnalyzer (Some (NewTokenizer data))
                (FilepathJoin E (if an_filename (an s) \<noteq> [] then FilepathDir E (an_filename (an s)) else []) f)\<rparr>)
                = Some (Ok (Some r, None), s1)"
  then show "importFile imp E f root s =
              Some (Ok (), s1\<lparr>an := an s, hp := ImportSymbols root r (AdoptChildren root r (hp s1))\<rparr>)"
    using importFile_merge [of E s f data imp r s1 root] by blast
qed

theorem ImportSymbols_first_wins_witness:
  "map_of (symbols (nodes (ImportSymbols 0 1 import_heap) 0)) ''A'' = Some 0
   \<and> map_of (symbols (nodes (ImportSymbols 0 1 import_heap) 0)) ''B'' = Some 2
   \<and> map_of (symbols (nodes (ImportSymbols_loop 0 [2, 1] import_heap) 0)) =
       map_of (symbols (nodes (ImportSymbols 0 1 import_heap) 0))"
proof -
  have ss: "set [2, Suc 0] = set (Symbols (Suc 0) import_heap)" "distinct [2, Suc 0 :: nat]"
    by (simp_all add: Symbols_def import_heap_facts insert_commute)
  note T = ImportSymbols_first_wins [OF import_heap_ok ss, of 0]
  have same: "map_of (symbols (nodes (ImportSymbols 0 (Suc 0) import_heap) 0)) =
      map_of (symbols (nodes (ImportSymbols_loop 0 [2, Suc 0] import_heap) 0))"
    using T [THEN conjunct2, THEN conjunct2, THEN conjunct1] .
  have "map_of (symbols (nodes import_heap 0)) ''A'' = Some 0" by (simp add: import_heap_facts)
  with T [THEN conjunct1]
  have A: "map_of (symbols (nodes (ImportSymbols_loop 0 [2, Suc 0] import_heap) 0)) ''A'' = Some 0"
    by blast
  have "2 \<in> set (Symbols (Suc 0) import_heap)"
    "map_of (symbols (nodes import_heap 0)) (sym_Value (syms import_heap 2)) = None"
    by (simp_all add: Symbols_def import_heap_facts)
  with T [THEN conjunct2, THEN conjunct1]
  have "map_of (symbols (nodes (ImportSymbols_loop 0 [2, Suc 0] import_heap) 0))
      (sym_Value (syms import_heap 2)) = Some 2"
    by blast
  then have B: "map_of (symbols (nodes (ImportSymbols_loop 0 [2, Suc 0] import_heap) 0)) ''B'' = Some 2"
    by (simp add: import_heap_facts)
  show ?thesis using A B same by simp
qed

text \<open>C7, as stated, fails: \<^verbatim>\<open>handlePreprocessToken\<close> expects a string token before
  it looks at the value of the directive, so a directive \<^verbatim>\<open>#foo\<close> followed by
  \<^verbatim>\<open>class\<close> is an unexpected-token error.\<close>

theorem preprocess_directive_needs_string_counterexample:
  "map_option fst (Analyze (Suc 0) example_env (initial_state src_directive)) =
     Some (Ok (Some 0, Some (AnalyzerError ''main'' (Some (1, 11)) (UnexpectedToken ''class''))))"
proof -
  have tokens: "Tokenize (NewTokenizer src_directive) =
     Inr (tok OpPreprocess ''foo'' ''#foo'' 1 5
          # [tok OpIdentifier ''class'' ''class'' 1 11, tok OpIdentifier ''A'' ''A'' 1 13,
             tok OpOperator ''{'' ''{'' 1 15, tok OpOperator ''}'' ''}'' 1 17,
             tok OpTerminator '';'' '';'' 1 18])"
    by (simp add: src_directive_def tok_def lexer_defs Let_def)
  have "map_option (\<lambda>(r, s). (r, ())) (Analyze (Suc 0) example_env (initial_state src_directive)) =
     (case Err (AnalyzerError ''main'' (Some (1, 11)) (UnexpectedToken ''class'')) :: unit result of
        Ok _ \<Rightarrow> Some (Ok (Some 0, None), ())
      | Err e \<Rightarrow> Some (Ok (Some 0, Some e), ())
      | Panic p \<Rightarrow> Some (Panic p, ()))"
    by (rule Analyze_initial_result [OF tokens])
       (simp add: example_env_def analyzer_defs heap_defs Analyze_0)
  then show ?thesis
    by (cases "Analyze (Suc 0) example_env (initial_state src_directive)") auto
qed

text \<open>C7, amended: for every top-level preprocessor token, whatever its value, the
  next token must be a string: the analyzer fails with the end-of-input error when there is
  none and with an unexpected-token error when it is not a string, and the state is as it
  was. When it is a string and the value of the directive is not exactly \<open>import\<close>, the
  string is consumed and nothing else happens: no import is made (the result does not
  depend on the import function or on the files) and the tree is unchanged. When the value
  is \<open>import\<close>, the string is consumed and the file it names is imported.\<close>

theorem preprocess_directive:
  assumes "tok_Op t = OpPreprocess"
  shows "(ValueString t \<noteq> ''import'' \<longrightarrow>
          handleToken imp E t root s =
            (case an_tokens (an s) of
               [] \<Rightarrow> Some (Err (Errorf (an s) (- 1) (- 1) EOF), s)
             | n # rest \<Rightarrow>
                 if tok_Op n = OpString then Some (Ok (), s\<lparr>an := (an s)\<lparr>an_tokens := rest\<rparr>\<rparr>)
                 else Some (Err (Errorf (an s) (tok_Row n) (tok_Col n)
                                   (UnexpectedToken (tok_Raw n))), s)))
       \<and> (ValueString t = ''import'' \<longrightarrow>
          handleToken imp E t root s =
            (case an_tokens (an s) of
               [] \<Rightarrow> Some (Err (Errorf (an s) (- 1) (- 1) EOF), s)
             | n # rest \<Rightarrow>
                 if tok_Op n = OpString
                 then importFile imp E (tok_Value n) root (s\<lparr>an := (an s)\<lparr>an_tokens := rest\<rparr>\<rparr>)
                 else Some (Err (Errorf (an s) (tok_Row n) (tok_Col n)
                                   (UnexpectedToken (tok_Raw n))), s)))"
  using assms handlePreprocessToken_other [of t imp E root s]
    handlePreprocessToken_import [of t imp E root s]
  by (simp add: handleToken_def)

theorem preprocess_directive_witness:
  "handleToken (Analyze 0 example_env) example_env (tok OpPreprocess ''foo'' ''#foo'' 1 5) 0
     \<lparr>an = \<lparr>an_t = None, an_tokens = [tok OpString ''b'' ''b'' 1 9, tok OpTerminator '';'' '';'' 1 10],
             an_filename = ''main''\<rparr>,
        hp = shadow_heap, objs = (\<lambda>_. Plain)\<rparr>
   = Some (Ok (), \<lparr>an = \<lparr>an_t = None, an_tokens = [tok OpTerminator '';'' '';'' 1 10],
             an_filename = ''main''\<rparr>,
        hp = shadow_heap, objs = (\<lambda>_. Plain)\<rparr>)
   \<and> handleToken (Analyze 0 example_env) example_env (tok OpPreprocess ''IMPORT'' ''#IMPORT'' 1 8) 0
     \<lparr>an = \<lparr>an_t = None, an_tokens = [tok OpIdentifier ''b'' ''b'' 1 9],
             an_filename = ''main''\<rparr>,
        hp = shadow_heap, objs = (\<lambda>_. Plain)\<rparr>
   = Some (Err (AnalyzerError ''main'' (Some (1, 9)) (UnexpectedToken ''b'')),
       \<lparr>an = \<lparr>an_t = None, an_tokens = [tok OpIdentifier ''b'' ''b'' 1 9],
             an_filename = ''main''\<rparr>,
        hp = shadow_heap, objs = (\<lambda>_. Plain)\<rparr>)"
  using preprocess_directive [of "tok OpPreprocess ''foo'' ''#foo'' 1 5" "Analyze 0 example_env" example_env 0
     "\<lparr>an = \<lparr>an_t = None, an_tokens = [tok OpString ''b'' ''b'' 1 9, tok OpTerminator '';'' '';'' 1 10],
             an_filename = ''main''\<rparr>, hp = shadow_heap, objs = (\<lambda>_. Plain)\<rparr>"]
    preprocess_directive [of "tok OpPreprocess ''IMPORT'' ''#IMPORT'' 1 8" "Analyze 0 example_env" example_env 0
     "\<lparr>an = \<lparr>an_t = None, an_tokens = [tok OpIdentifier ''b'' ''b'' 1 9],
             an_filename = ''main''\<rparr>, hp = shadow_heap, objs = (\<lambda>_. Plain)\<rparr>"]
  by (simp add: tok_def ValueString_def Errorf_def)




text \<open>C10: a property whose declaration part has succeeded (the new node is \<open>node\<close>)
  and whose queue goes on with \<^verbatim>\<open>= A::b\<close>, where no table on the scope chain of the
  property node has \<open>A\<close>: \<^verbatim>\<open>FindNestedSymbol\<close> returns nil (the first component is
  looked up without creation), \<^verbatim>\<open>AddDefault\<close> panics on nil, and \<^verbatim>\<open>analyzeProperty\<close>
  ends in that panic and not in a returned error.\<close>

theorem nil_default_panics:
  assumes "analyzeProperty_declare E root s = Some (Ok node, s1)"
    and "an_tokens (an s1) = eq # x # n # y # rest"
    and "Token_Equal E assignmentToken eq"
    and "tok_Op x = OpIdentifier" "tok_Op n = OpNamespace" "tok_Op y = OpIdentifier"
    and "scope_chain (hp s1) node ms"
    and "\<forall>m\<in>set ms. map_of (symbols (nodes (hp s1) m)) (tok_Value x) = None"
  shows "FindNestedSymbol node [tok_Value x, tok_Value y] (hp s1) = Some (Ok None, hp s1)
       \<and> AddDefault node None (s1\<lparr>an := (an s1)\<lparr>an_tokens := rest\<rparr>\<rparr>) =
           Some (Panic NilDefault, s1\<lparr>an := (an s1)\<lparr>an_tokens := rest\<rparr>\<rparr>)
       \<and> analyzeProperty E root s = Some (Panic NilDefault, s1\<lparr>an := (an s1)\<lparr>an_tokens := rest\<rparr>\<rparr>)"
proof -
  let ?s2 = "s1\<lparr>an := (an s1)\<lparr>an_tokens := x # n # y # rest\<rparr>\<rparr>"
  have "analyzeDefaults E node ?s2 = Some (Panic NilDefault, ?s2\<lparr>an := (an ?s2)\<lparr>an_tokens := rest\<rparr>\<rparr>)"
    using analyzeDefaults_unknown_namespace [of ?s2 x n y rest node ms E] assms(4-8) by simp
  then have "analyzeProperty E root s = Some (Panic NilDefault, s1\<lparr>an := (an s1)\<lparr>an_tokens := rest\<rparr>\<rparr>)"
    using assms(1) optionalToken_match [OF assms(2,3)]
    by (simp add: analyzeProperty_def abind_def with_tokens_def)
  then show ?thesis
    using FindNestedSymbol_unknown_first [OF assms(7,8)] by (simp add: AddDefault_def)
qed


theorem nil_default_panics_witness:
  "map_option fst (analyzeProperty example_env 1
        (class_scope_state [tok OpIdentifier ''y'' ''y'' 1 12, tok OpOperator ''='' ''='' 1 14,
           tok OpIdentifier ''E'' ''E'' 1 16, tok OpNamespace ''::'' ''::'' 1 18,
           tok OpIdentifier ''y'' ''y'' 1 19, tok OpTerminator '';'' '';'' 1 20]))
     = Some (Panic NilDefault)
   \<and> map_option fst (Analyze (Suc 0) example_env (initial_state src_unknown_namespace))
     = Some (Panic NilDefault)"
proof -
  let ?S = "class_scope_state [tok OpIdentifier ''y'' ''y'' 1 12, tok OpOperator ''='' ''='' 1 14,
           tok OpIdentifier ''E'' ''E'' 1 16, tok OpNamespace ''::'' ''::'' 1 18,
           tok OpIdentifier ''y'' ''y'' 1 19, tok OpTerminator '';'' '';'' 1 20]"
  from unknown_namespace_declare obtain s1 where
    decl: "analyzeProperty_declare example_env (Suc 0) ?S = Some (Ok 2, s1)"
    and toks: "an_tokens (an s1) = tok OpOperator ''='' ''='' 1 14 #
           tok OpIdentifier ''E'' ''E'' 1 16 # tok OpNamespace ''::'' ''::'' 1 18 #
           tok OpIdentifier ''y'' ''y'' 1 19 # [tok OpTerminator '';'' '';'' 1 20]"
    and par: "parent (nodes (hp s1) 2) = Some 1" "parent (nodes (hp s1) 1) = Some 0"
      "parent (nodes (hp s1) 0) = None"
    and tab: "map_of (symbols (nodes (hp s1) 2)) ''E'' = None"
      "map_of (symbols (nodes (hp s1) 1)) ''E'' = None"
      "map_of (symbols (nodes (hp s1) 0)) ''E'' = None"
    by (cases "analyzeProperty_declare example_env (Suc 0) ?S") auto
  have chain: "scope_chain (hp s1) 2 [2, 1, 0]"
    using par by (auto intro: scope_chain.intros)
  have eq: "Token_Equal example_env assignmentToken (tok OpOperator ''='' ''='' 1 14)"
    by (simp add: Token_Equal_def assignmentToken_def token_lit_def tok_def EqualFold.simps
        next_rune_def RuneSelf_def)
  have absent: "\<forall>m\<in>set [2, 1, 0]. map_of (symbols (nodes (hp s1) m))
      (tok_Value (tok OpIdentifier ''E'' ''E'' 1 16)) = None"
    using tab by (simp add: tok_def)
  have "analyzeProperty example_env (Suc 0) ?S =
      Some (Panic NilDefault, s1\<lparr>an := (an s1)\<lparr>an_tokens := [tok OpTerminator '';'' '';'' 1 20]\<rparr>\<rparr>)"
    using nil_default_panics [OF decl toks eq _ _ _ chain absent]
    by (simp add: tok_def)
  then show ?thesis using unknown_namespace_run by simp
qed



text \<open>C3: a property whose declaration part has succeeded (the new node is \<open>node\<close>)
  and whose queue goes on with \<^verbatim>\<open>=\<close>, a chain of namespaced identifiers, each but the
  first after a separator token equal to \<^verbatim>\<open>|\<close>, and the terminator. When
  \<^verbatim>\<open>FindNestedSymbol\<close>, started at the property node for each element in turn, finds the
  symbols \<open>sps\<close>, then \<^verbatim>\<open>analyzeProperty\<close> returns without error and the default list of
  the property is \<open>sps\<close>, in the order of the chain; the parent of the property node is the
  enclosing scope, so the lookups go through the enclosing class or enum and everything
  above.\<close>

theorem default_chain_resolved:
  assumes decl: "analyzeProperty_declare E root s = Some (Ok node, s1)"
    and toks: "an_tokens (an s1) = eq # chain_tokens e bes @ semi # rest"
    and eq: "Token_Equal E assignmentToken eq"
    and e: "ns_ident e" and bes: "chain_ok E bes"
    and semi: "tok_Op semi = OpTerminator"
    and resolve: "resolve_chain node (map ns_path (chain_elements e bes)) (hp s1) = Some (sps, h')"
  shows "parent (nodes (hp s1) node) = Some root
       \<and> map_option (\<lambda>(r, s'). (r, hp s', map_option prp_Default (the_Property (objs s' node))))
           (analyzeProperty E root s) = Some (Ok (), h', Some sps)"
proof -
  from analyzeProperty_declare_declared [OF decl] obtain p where
    p: "objs s1 node = Property p" "prp_Default p = []"
    and par: "parent (nodes (hp s1) node) = Some root"
    by (auto simp: declared_def)
  let ?s2 = "s1\<lparr>an := (an s1)\<lparr>an_tokens := chain_tokens e bes @ semi # rest\<rparr>\<rparr>"
  let ?s3 = "?s2\<lparr>an := (an ?s2)\<lparr>an_tokens := semi # rest\<rparr>, hp := h',
        objs := (objs ?s2)(node := on_Property (\<lambda>p. p\<lparr>prp_Default := prp_Default p @ sps\<rparr>)
                                    (objs ?s2 node))\<rparr>"
  have assign: "optionalToken E assignmentToken (an s1) = (Ok (Some eq), an ?s2)"
    using optionalToken_match [OF toks eq] by simp
  have stop: "semi # rest = [] \<or> (tok_Op (hd (semi # rest)) \<noteq> OpNamespace
      \<and> \<not> Token_Equal E binaryOrToken (hd (semi # rest)))"
    using semi by (auto simp: Token_Equal_def binaryOrToken_def token_lit_def)
  have defaults: "analyzeDefaults E node ?s2 = Some (Ok (), ?s3)"
    by (rule analyzeDefaults_chain [OF e bes _ stop]) (use resolve in simp_all)
  have "analyzeProperty E root s =
      abind (with_tokens (expectOp OpTerminator)) (\<lambda>_.
      abind (with_tokens (optionalToken E obsoleteToken)) (\<lambda>obsolete.
       case obsolete of
         None \<Rightarrow> areturn ()
       | Some _ \<Rightarrow>
           abind (update_obj node (on_Property (\<lambda>p. p\<lparr>prp_Obsolete := True\<rparr>))) (\<lambda>_.
           abind (with_tokens (optionalOp OpString)) (\<lambda>obsoleteReason.
             case obsoleteReason of
               Some r \<Rightarrow>
                 update_obj node (on_Property (\<lambda>p. p\<lparr>prp_ObsoleteReason := ValueString r\<rparr>))
             | None \<Rightarrow>
                 abind (with_tokens (optionalOp OpTerminator)) (\<lambda>_. areturn ()))))) ?s3"
    using decl assign defaults
    by (simp add: analyzeProperty_def abind_def with_tokens_def)
  also have "map_option (\<lambda>(r, s'). (r, hp s', map_option prp_Default (the_Property (objs s' node))))
      \<dots> = Some (Ok (), h', Some sps)"
    using semi p
    by (simp add: abind_def with_tokens_def expectOp_def optionalToken_eq optionalOp_def Peek_def
        Dequeue_def update_obj_def areturn_def split: list.splits option.splits)
  finally show ?thesis using par by simp
qed

theorem default_chain_resolved_witness:
  "map_option (\<lambda>(r, s'). (r, map_option prp_Default (the_Property (objs s' 5))))
     (analyzeProperty example_env 3 (enum_class_state default_chain_tokens)) = Some (Ok (), Some [3, 1, 3])
   \<and> map_option (\<lambda>(r, s). (r, map_option prp_Default (the_Property (objs s 5)),
       map (\<lambda>sp. (sym_Value (syms (hp s) sp), sym_Scope (syms (hp s) sp))) [3, 1]))
     (Analyze (Suc 0) example_env (initial_state src_default_chain))
   = Some (Ok (Some 0, None), Some [3, 1, 3], [(''C'', Some 3), (''y'', Some 1)])"
proof -
  let ?S = "enum_class_state default_chain_tokens"
  let ?C = "[tok OpIdentifier ''C'' ''C'' 1 40]"
  let ?bes = "[(tok OpOperator ''|'' ''|'' 1 42,
                 [tok OpIdentifier ''MyEnum2'' ''MyEnum2'' 1 50, tok OpNamespace ''::'' ''::'' 1 52,
                  tok OpIdentifier ''y'' ''y'' 1 53]),
                (tok OpOperator ''|'' ''|'' 1 55, [tok OpIdentifier ''C'' ''C'' 1 57])]"
  from default_chain_declare obtain s1 where
    decl: "analyzeProperty_declare example_env 3 ?S = Some (Ok 5, s1)"
    and toks: "an_tokens (an s1) = tok OpOperator ''='' ''='' 1 38 #
        chain_tokens ?C ?bes @ tok OpTerminator '';'' '';'' 1 58 #
          [tok OpOperator ''}'' ''}'' 1 60, tok OpTerminator '';'' '';'' 1 61]"
    and par: "parent (nodes (hp s1) 5) = Some 3" "parent (nodes (hp s1) 3) = Some 0"
      "parent (nodes (hp s1) 1) = Some 0" "parent (nodes (hp s1) 0) = None"
    and tab: "map_of (symbols (nodes (hp s1) 5)) ''C'' = None"
      "map_of (symbols (nodes (hp s1) 3)) ''C'' = Some 3"
      "map_of (symbols (nodes (hp s1) 5)) ''MyEnum2'' = None"
      "map_of (symbols (nodes (hp s1) 3)) ''MyEnum2'' = None"
      "map_of (symbols (nodes (hp s1) 0)) ''MyEnum2'' = Some 0"
      "map_of (symbols (nodes (hp s1) 1)) ''y'' = Some 1"
    and nd: "sym_Node (syms (hp s1) 0) = Some 1"
    by (cases "analyzeProperty_declare example_env 3 ?S") (auto simp: default_chain_tokens_def)
  have chain5: "scope_chain (hp s1) 5 [5, 3, 0]" and chain1: "scope_chain (hp s1) 1 [1, 0]"
    using par by (auto intro: scope_chain.intros)
  have C: "FindSymbol 5 ''C'' True (hp s1) = Some (Ok (Some 3), hp s1)"
    by (rule FindSymbol_chain_found [OF chain5, of "[5]" 3 "[0]"]) (use tab in simp_all)
  have E: "FindSymbol 5 ''MyEnum2'' False (hp s1) = Some (Ok (Some 0), hp s1)"
    by (rule FindSymbol_chain_found [OF chain5, of "[5, 3]" 0 "[]"]) (use tab in simp_all)
  have y: "FindSymbol 1 ''y'' True (hp s1) = Some (Ok (Some 1), hp s1)"
    by (rule FindSymbol_chain_found [OF chain1, of "[]" 1 "[0]"]) (use tab in simp_all)
  have resolve: "resolve_chain 5 (map ns_path (chain_elements ?C ?bes)) (hp s1) =
      Some ([3, 1, 3], hp s1)"
    using C E y nd by (simp add: chain_elements_def FindNestedSymbol_def tok_def)
  have eq: "Token_Equal example_env assignmentToken (tok OpOperator ''='' ''='' 1 38)"
    by (simp add: Token_Equal_def assignmentToken_def token_lit_def tok_def EqualFold.simps
        next_rune_def RuneSelf_def)
  have bes: "chain_ok example_env ?bes"
    by (simp add: Token_Equal_def binaryOrToken_def token_lit_def tok_def EqualFold.simps
        next_rune_def RuneSelf_def)
  from default_chain_resolved [OF decl toks eq _ bes _ resolve]
  have "map_option (\<lambda>(r, s'). (r, hp s', map_option prp_Default (the_Property (objs s' 5))))
           (analyzeProperty example_env 3 ?S) = Some (Ok (), hp s1, Some [3, 1, 3])"
    by (simp add: tok_def)
  then have "map_option (\<lambda>(r, s'). (r, map_option prp_Default (the_Property (objs s' 5))))
     (analyzeProperty example_env 3 ?S) = Some (Ok (), Some [3, 1, 3])"
    by (cases "analyzeProperty example_env 3 ?S") auto
  then show ?thesis using default_chain_run by simp
qed






text \<open>C8, as written: an identifier starts with a letter, an underscore or \<^verbatim>\<open>-\<close>.
  The lexer makes an identifier of \<^verbatim>\<open>20\<close>, which does not have that shape, and an invalid
  token of \<^verbatim>\<open>-\<close>, which has it.\<close>

theorem identifier_digit_first_counterexample:
  "Tokenize (NewTokenizer ''20'') = Inr [tok OpIdentifier ''20'' ''20'' 1 3]
   \<and> \<not> spec_ident_shape ''20''
   \<and> spec_ident_shape ''-''
   \<and> Tokenize (NewTokenizer ''-'') = Inr [tok OpInvalid ''-'' ''-'' 1 2]"
  by (simp add: tok_def lexer_defs Let_def)

text \<open>C8, amended: the raw text of every identifier token is an optional \<^verbatim>\<open>-\<close>, then
  a letter, a digit or an underscore, then letters, digits, underscores and dots, and the
  value of the token is its raw text. Conversely, where a match starts with a span of that
  shape that is not followed by a letter, a digit, an underscore or a dot, the match is that
  span and its group is the identifier group.\<close>

theorem identifier_tokens_shape:
  "(Tokenize (NewTokenizer data) = Inr ts \<and> t \<in> set ts \<and> tok_Op t = OpIdentifier \<longrightarrow>
      ident_shape (tok_Raw t) \<and> tok_Value t = tok_Raw t)
   \<and> (ident_shape w \<and> (rest = [] \<or> \<not> ident_rest (hd rest)) \<longrightarrow>
      pattern_at (w @ rest) = (OpIdentifier, length w, 0, length w)
      \<and> hd (FindAllSubmatchIndex (w @ rest)) =
          \<lparr>mi_start = 0, mi_end = length w, mi_group = OpIdentifier, mi_cap_start = 0,
            mi_cap_end = length w\<rparr>)"
proof (intro conjI impI)
  assume a: "Tokenize (NewTokenizer data) = Inr ts \<and> t \<in> set ts \<and> tok_Op t = OpIdentifier"
  then have run: "tokenize_loop data (FindAllSubmatchIndex_from data 0) 1 1 [] = Inr ts"
    by (simp add: Tokenize_def NewTokenizer_def FindAllSubmatchIndex_def)
  from a have "t \<in> set ts" by simp
  from tokenize_loop_token [OF run this] obtain m where
    m: "m \<in> set (FindAllSubmatchIndex_from data 0)"
    and t: "tok_Op t = mi_group m" "tok_Raw t = slice data (mi_start m) (mi_end m)"
      "tok_Value t = slice data (mi_cap_start m) (mi_cap_end m)"
    by auto
  let ?bs = "drop (mi_start m) data"
  note at = FindAllSubmatchIndex_from_match [OF m]
  from at t a have op: "fst (pattern_at ?bs) = OpIdentifier" by simp
  from pattern_at_identifier(1) [OF op] at t
  show "ident_shape (tok_Raw t)" by (simp add: slice_def)
  from pattern_at_identifier(2) [OF op] at t
  show "tok_Value t = tok_Raw t" by (simp add: slice_def)
next
  assume "ident_shape w \<and> (rest = [] \<or> \<not> ident_rest (hd rest))"
  then show "pattern_at (w @ rest) = (OpIdentifier, length w, 0, length w)"
    by (simp add: pattern_at_ident_shape)
next
  assume "ident_shape w \<and> (rest = [] \<or> \<not> ident_rest (hd rest))"
  then show "hd (FindAllSubmatchIndex (w @ rest)) =
          \<lparr>mi_start = 0, mi_end = length w, mi_group = OpIdentifier, mi_cap_start = 0,
            mi_cap_end = length w\<rparr>"
    by (simp add: FindAllSubmatchIndex_first)
qed

theorem identifier_tokens_shape_witness:
  "Tokenize (NewTokenizer ''-a1 b'') =
     Inr [tok OpIdentifier ''-a1'' ''-a1'' 1 4, tok OpIdentifier ''b'' ''b'' 1 6]
   \<and> ident_shape (tok_Raw (tok OpIdentifier ''-a1'' ''-a1'' 1 4))
   \<and> pattern_at (''-a1'' @ '' b'') = (OpIdentifier, 3, 0, 3)"
proof -
  have tokens: "Tokenize (NewTokenizer ''-a1 b'') =
     Inr [tok OpIdentifier ''-a1'' ''-a1'' 1 4, tok OpIdentifier ''b'' ''b'' 1 6]"
    by (simp add: tok_def lexer_defs Let_def)
  have shape: "ident_shape ''-a1'' \<and> ('' b'' = [] \<or> \<not> ident_rest (hd '' b''))"
    by (simp add: ident_first_def ident_rest_def is_letter_def is_digit_def)
  from identifier_tokens_shape [of "''-a1 b''"
      "[tok OpIdentifier ''-a1'' ''-a1'' 1 4, tok OpIdentifier ''b'' ''b'' 1 6]"
      "tok OpIdentifier ''-a1'' ''-a1'' 1 4" "''-a1''" "'' b''"] tokens shape
  show ?thesis by (simp add: tok_def)
qed


text \<open>C5: the column of a token. The identifier \<^verbatim>\<open>ab\<close> at the start of the input
  is reported at column 3, and at column 2 when a line break comes before it; after a line
  break and three spaces, \<^verbatim>\<open>yz\<close> is reported at row 2, column 5. The counter has the
  characters of the token itself added before the token is made, and after a line break it
  restarts from 0 and not from 1. Columns count characters: the two bytes of
  \<^verbatim>\<open>U+00E9\<close> advance the column by one.\<close>

theorem token_column_after_token:
  "Tokenize (NewTokenizer ''ab'') = Inr [tok OpIdentifier ''ab'' ''ab'' 1 3]
   \<and> Tokenize (NewTokenizer (CHR 0x0A # ''ab'')) = Inr [tok OpIdentifier ''ab'' ''ab'' 2 2]
   \<and> Tokenize (NewTokenizer (''x'' @ CHR 0x0A # ''   yz'')) =
       Inr [tok OpIdentifier ''x'' ''x'' 1 2, tok OpIdentifier ''yz'' ''yz'' 2 5]
   \<and> Tokenize (NewTokenizer ([CHR 0xC3, CHR 0xA9] @ '' z'')) =
       Inr [tok OpInvalid [CHR 0xC3, CHR 0xA9] [CHR 0xC3, CHR 0xA9] 1 2,
            tok OpIdentifier ''z'' ''z'' 1 4]"
  by (simp add: tok_def lexer_defs Let_def)
end
